theory Spec2Isabelle
  imports Main "HOL-Library.AList" "HOL-Library.Sublist" "HOL-Library.Word"
begin


section \<open>The service configuration document (input)\<close>

text \<open>
  The configuration manager reads a \<^verbatim>\<open>conf.Service\<close> protobuf message. Only the fields
  that \<^verbatim>\<open>config_manager.go\<close> reads are kept. Sub-messages are read through the generated
  nil-safe getters, for which a nil sub-message and an empty one are the same; they are
  modelled by their (possibly empty) contents. Go strings are byte strings: \<^typ>\<open>string\<close>.
\<close>

record Method =
  Method_Name :: string

record SourceContext =
  FileName :: string

record Api =
  Api_Name :: string
  Methods :: "Method list"
  Api_SourceContext :: "SourceContext option"

record AuthProvider =
  Id :: string
  Issuer :: string
  JwksUri :: string
  AuthProvider_Audiences :: string

record AuthRequirement =
  ProviderId :: string
  AuthRequirement_Audiences :: string

record AuthenticationRule =
  AuthenticationRule_Selector :: string
  Requirements :: "AuthRequirement list"

record Authentication =
  Authentication_Rules :: "AuthenticationRule list"
  Authentication_Providers :: "AuthProvider list"

text \<open>The \<^verbatim>\<open>pattern\<close> oneof of \<^verbatim>\<open>google.api.HttpRule\<close>; an unset oneof is \<open>None\<close>.\<close>

datatype HttpPattern =
    HttpRule_Get string
  | HttpRule_Put string
  | HttpRule_Post string
  | HttpRule_Delete string
  | HttpRule_Patch string
  | HttpRule_Custom string string

record HttpRule =
  HttpRule_Selector :: string
  HttpRule_Pattern :: "HttpPattern option"

record UsageRule =
  UsageRule_Selector :: string
  AllowUnregisteredCalls :: bool

datatype FileType =
    FILE_TYPE_UNSPECIFIED
  | SERVICE_CONFIG_YAML
  | OPEN_API_JSON
  | OPEN_API_YAML
  | FILE_DESCRIPTOR_SET_PROTO

record ConfigFile =
  ConfigFile_FileType :: FileType
  FileContents :: string

text \<open>
  An entry of \<^verbatim>\<open>source_info.source_files\<close> is a protobuf \<^verbatim>\<open>Any\<close>: either a packed
  \<^verbatim>\<open>ConfigFile\<close> or a message of some other type (named by its type URL).
\<close>

datatype Any = Any_ConfigFile ConfigFile | Any_Other string

record Service =
  Service_Name :: string
  Apis :: "Api list"
  Service_Authentication :: Authentication
  Http_Rules :: "HttpRule list"
  Usage_Rules :: "UsageRule list"
  Control_Environment :: string
  SourceFiles :: "Any list"

section \<open>Outcomes\<close>

text \<open>
  A Go call returns normally, returns a non-nil \<^verbatim>\<open>error\<close> (built with \<^verbatim>\<open>fmt.Errorf\<close>,
  kept as its message), or panics (a nil-pointer dereference).
\<close>

datatype 'a result = Ok 'a | Error string | Panic

text \<open>A \<^verbatim>\<open>for ... range\<close> loop whose body may fail: the first failure ends the loop.\<close>

fun forEach :: "('a \<Rightarrow> 's \<Rightarrow> 's result) \<Rightarrow> 'a list \<Rightarrow> 's \<Rightarrow> 's result" where
  "forEach body [] s = Ok s"
| "forEach body (x # xs) s =
     (case body x s of
        Ok s' \<Rightarrow> forEach body xs s'
      | Error e \<Rightarrow> Error e
      | Panic \<Rightarrow> Panic)"

section \<open>Filter payloads (output)\<close>

subsection \<open>Service control\<close>

record Pattern =
  UriTemplate :: string
  HttpMethod :: string

datatype APIKey = APIKey_Query string | APIKey_Header string

record APIKeyRequirement =
  AllowWithoutApiKey :: bool
  ApiKeys :: "APIKey list"

record Requirement =
  Requirement_ServiceName :: string
  OperationName :: string
  ApiKey :: "APIKeyRequirement option"

record ServiceControlRule =
  Requires :: Requirement
  Rule_Pattern :: Pattern

record HttpUri =
  Uri :: string
  HttpUri_Cluster :: string
  Timeout_Seconds :: int

record scService =
  scService_ServiceName :: string
  TokenUri :: HttpUri
  scService_ServiceControlUri :: HttpUri

record FilterConfig =
  Services :: "scService list"
  FilterConfig_ServiceName :: string
  FilterConfig_ServiceControlUri :: HttpUri
  FilterConfig_Rules :: "ServiceControlRule list"

subsection \<open>JWT authentication\<close>

record JwtProvider =
  JwtProvider_Issuer :: string
  LocalJwks_InlineString :: string
  JwtProvider_Audiences :: "string list"

datatype JwtRequirement =
    ProviderName string
  | ProviderAndAudiences string "string list"
  | RequiresAny "JwtRequirement list"

record RequirementRule =
  Match_Prefix :: string
  RequirementRule_Requires :: JwtRequirement

record JwtAuthentication =
  JwtAuthentication_Providers :: "(string \<times> JwtProvider) list"
  JwtAuthentication_Rules :: "RequirementRule list"

subsection \<open>Transcoder\<close>

record GrpcJsonTranscoder =
  ProtoDescriptorBin :: string
  GrpcJsonTranscoder_Services :: "string list"

subsection \<open>HTTP filters\<close>

text \<open>
  Modelled from the spec: the filter-name constants (\<^verbatim>\<open>ut.JwtAuthn\<close>,
  \<^verbatim>\<open>ut.ServiceControl\<close> of this repository's util package, and \<^verbatim>\<open>util.Router\<close>,
  \<^verbatim>\<open>util.GRPCJSONTranscoder\<close>, \<^verbatim>\<open>util.HTTPConnectionManager\<close> of the control-plane
  library) are declared outside the source tree. The spec names the filters
  jwt_authn, service_control, transcoder and router; they are kept symbolic.
\<close>

datatype FilterName = JwtAuthn | ServiceControl | GRPCJSONTranscoder | Router | HTTPConnectionManager

text \<open>
  \<^verbatim>\<open>util.MessageToStruct\<close> re-encodes a typed message as a generic \<^verbatim>\<open>Struct\<close>. The filter
  builders discard its error; the model keeps the typed message as the filter's config
  (the empty \<^verbatim>\<open>types.Struct\<close> of the router is \<open>EmptyStruct\<close>).
\<close>

datatype FilterStruct =
    JwtAuthnStruct JwtAuthentication
  | ServiceControlStruct FilterConfig
  | TranscoderStruct GrpcJsonTranscoder
  | EmptyStruct

record HttpFilter =
  HttpFilter_Name :: FilterName
  HttpFilter_Config :: FilterStruct

section \<open>Listener, cluster and snapshot (output)\<close>

record Route =
  RouteMatch_Prefix :: string
  RouteAction_Cluster :: string

record VirtualHost =
  VirtualHost_Name :: string
  Domains :: "string list"
  Routes :: "Route list"

record RouteConfiguration =
  RouteConfiguration_Name :: string
  VirtualHosts :: "VirtualHost list"

datatype CodecType = AUTO | HTTP1 | HTTP2

record HttpConnectionManager =
  Codec :: CodecType
  StatPrefix :: string
  RouteConfig :: RouteConfiguration
  HttpFilters :: "HttpFilter list"

record SocketAddress =
  Address :: string
  PortValue :: "32 word"

text \<open>
  The network filter of the listener carries the connection manager, re-encoded by
  \<^verbatim>\<open>util.MessageToStruct\<close>; the model keeps the typed message.
\<close>

record ListenerFilter =
  ListenerFilter_Name :: FilterName
  ListenerFilter_Config :: HttpConnectionManager

record FilterChain =
  Filters :: "ListenerFilter list"

record Listener =
  Listener_Address :: SocketAddress
  FilterChains :: "FilterChain list"

datatype LbPolicy = ROUND_ROBIN

record Cluster =
  Cluster_Name :: string
  Cluster_LbPolicy :: LbPolicy
  ConnectTimeout :: int
  Hosts :: "SocketAddress list"

datatype Resource = ClusterResource Cluster | ListenerResource Listener

text \<open>
  \<^verbatim>\<open>cache.NewSnapshot(version, endpoints, clusters, routes, listeners)\<close> of the
  control-plane library stores the four resource collections under one version.
\<close>

record Snapshot =
  Version :: string
  Endpoints :: "Resource list"
  Clusters :: "Resource list"
  Snapshot_Routes :: "Resource list"
  Listeners :: "Resource list"

definition NewSnapshot ::
  "string \<Rightarrow> Resource list \<Rightarrow> Resource list \<Rightarrow> Resource list \<Rightarrow> Resource list \<Rightarrow> Snapshot" where
  "NewSnapshot version endpoints clusters routes listeners =
     \<lparr>Version = version, Endpoints = endpoints, Clusters = clusters,
      Snapshot_Routes = routes, Listeners = listeners\<rparr>"

text \<open>
  The snapshot cache is written only through \<^verbatim>\<open>SetSnapshot(node, snapshot)\<close>; it is
  modelled by the sequence of those writes, oldest first.
\<close>

type_synonym SnapshotCache = "(string \<times> Snapshot) list"

definition SetSnapshot :: "string \<Rightarrow> Snapshot \<Rightarrow> SnapshotCache \<Rightarrow> SnapshotCache" where
  "SetSnapshot nodeId snapshot c = c @ [(nodeId, snapshot)]"

section \<open>Process configuration and the outside world\<close>

text \<open>The command-line flags, read once at start-up. Go \<^verbatim>\<open>int\<close> is 64 bits wide.\<close>

record Flags =
  listenerAddress :: string
  clusterAddress :: string
  serviceManagementURL :: string
  node :: string
  listenerPort :: "64 word"
  clusterPort :: "64 word"
  clusterConnectTimeout :: int

text \<open>
  An HTTP request as \<^verbatim>\<open>http.NewRequest\<close> builds it, and the response of a round trip.
  \<open>Body\<close> is what reading the body to its end gives: its bytes, or the read error.
\<close>

record Request =
  Request_Method :: string
  Request_URL :: string
  Request_Header :: "(string \<times> string) list"

record Response =
  StatusCode :: int
  Status :: string
  Body :: "string + string"

text \<open>
  What lies outside the program. \<^verbatim>\<open>urlParses\<close> says whether \<^verbatim>\<open>url.Parse\<close> of the
  standard library accepts a string. \<^verbatim>\<open>roundTrip n req\<close> is what \<^verbatim>\<open>client.Do\<close> returns
  for \<open>req\<close> when it is request number \<open>n\<close> of the client during start-up: an error
  (\<open>Inl\<close>) or a response, so the same URL may be answered differently at different
  times. \<^verbatim>\<open>unmarshalService\<close> is the \<^verbatim>\<open>jsonpb\<close> decoding of a response body into a
  service document. \<^verbatim>\<open>fetchAccessToken\<close> is declared elsewhere in the package; of its
  three results the caller keeps the token and the error. \<^verbatim>\<open>structError\<close> is the error,
  if any, that \<^verbatim>\<open>util.MessageToStruct\<close> returns for a connection manager.
\<close>

record World =
  flags :: Flags
  fetchAccessToken :: "string + string"
  urlParses :: "string \<Rightarrow> bool"
  roundTrip :: "nat \<Rightarrow> Request \<Rightarrow> string + Response"
  unmarshalService :: "string \<Rightarrow> string + Service"
  structError :: "HttpConnectionManager \<Rightarrow> string option"

record ConfigManager =
  serviceName :: string
  configID :: string
  cache :: SnapshotCache

section \<open>String helpers of the Go library\<close>

text \<open>\<^verbatim>\<open>strings.HasSuffix(s, suffix)\<close>.\<close>

definition HasSuffix :: "string \<Rightarrow> string \<Rightarrow> bool" where
  "HasSuffix s suf \<longleftrightarrow> length suf \<le> length s \<and> drop (length s - length suf) s = suf"

text \<open>
  \<^verbatim>\<open>strings.Split(s, sep)\<close> for a one-byte separator (the source splits at \<^verbatim>\<open>"."\<close> and
  \<^verbatim>\<open>","\<close>): the pieces between the separators, so the empty string gives one empty piece.
\<close>

fun Split :: "string \<Rightarrow> char \<Rightarrow> string list" where
  "Split [] sep = [[]]"
| "Split (c # cs) sep =
     (if c = sep then [] # Split cs sep
      else (case Split cs sep of
              [] \<Rightarrow> [[c]]
            | w # ws \<Rightarrow> (c # w) # ws))"

text \<open>\<^verbatim>\<open>strings.Replace(s, old, new, 1)\<close>: the first occurrence of \<open>old\<close> is replaced.\<close>

fun Replace1 :: "string \<Rightarrow> string \<Rightarrow> string \<Rightarrow> string" where
  "Replace1 [] old new = (if old = [] then new else [])"
| "Replace1 (c # cs) old new =
     (if prefix old (c # cs) then new @ drop (length old) (c # cs)
      else c # Replace1 cs old new)"

section \<open>Constants\<close>

definition statPrefix :: string where "statPrefix = ''ingress_http''"
definition routeName :: string where "routeName = ''local_route''"
definition virtualHostName :: string where "virtualHostName = ''backend''"
definition fetchConfigSufix :: string where
  "fetchConfigSufix = ''/v1/services/$serviceName/configs/$configId?view=FULL''"
definition tokenUri :: string where
  "tokenUri = ''http://169.254.169.254/computeMetadata/v1/instance/service-accounts/default/token''"
definition serviceControlUri :: string where
  "serviceControlUri = ''https://servicecontrol.googleapis.com/v1/services/''"

definition fetchConfigURL :: "World \<Rightarrow> string \<Rightarrow> string \<Rightarrow> string" where
  "fetchConfigURL w name cid =
     (let path = serviceManagementURL (flags w) @ fetchConfigSufix;
          path = Replace1 path ''$serviceName'' name;
          path = Replace1 path ''$configId'' cid
      in path)"

section \<open>The HTTP helpers\<close>

text \<open>
  \<^verbatim>\<open>http.NewRequest(method, url, nil)\<close> for the method \<^verbatim>\<open>GET\<close>: it fails exactly when
  the URL does not parse, and then returns a nil request. Both helpers discard its error.
\<close>

definition NewRequest :: "World \<Rightarrow> string \<Rightarrow> string \<Rightarrow> Request option" where
  "NewRequest w method url =
     (if urlParses w url
      then Some \<lparr>Request_Method = method, Request_URL = url, Request_Header = []\<rparr>
      else None)"

text \<open>
  \<^verbatim>\<open>fetchJwk(path, client)\<close>, as request number \<open>n\<close>. \<^verbatim>\<open>client.Do\<close> dereferences the
  request, so a nil request panics.
\<close>

definition fetchJwk :: "World \<Rightarrow> nat \<Rightarrow> string \<Rightarrow> string result" where
  "fetchJwk w n path =
     (case NewRequest w ''GET'' path of
        None \<Rightarrow> Panic
      | Some req \<Rightarrow>
          (case roundTrip w n req of
             Inl err \<Rightarrow> Error err
           | Inr resp \<Rightarrow>
               if StatusCode resp \<noteq> 200
               then Error (''fetching JWK returns not 200 OK: '' @ Status resp)
               else (case Body resp of
                       Inl err \<Rightarrow> Error err
                     | Inr bytes \<Rightarrow> Ok bytes)))"

text \<open>
  \<^verbatim>\<open>callServiceManagement(path, token, client)\<close>, as request number \<open>n\<close>.
  \<^verbatim>\<open>req.Header.Add\<close> dereferences the request, so a nil request panics. The decoder reads
  the body itself, so a read error is a decoding error.
\<close>

definition callServiceManagement :: "World \<Rightarrow> nat \<Rightarrow> string \<Rightarrow> string \<Rightarrow> Service result" where
  "callServiceManagement w n path token =
     (case NewRequest w ''GET'' path of
        None \<Rightarrow> Panic
      | Some req \<Rightarrow>
          (let req = req\<lparr>Request_Header :=
                      Request_Header req @ [(''Authorization'', ''Bearer '' @ token)]\<rparr> in
           case roundTrip w n req of
             Inl err \<Rightarrow> Error err
           | Inr resp \<Rightarrow>
               if StatusCode resp \<noteq> 200
               then Error (''http call to service management returns not 200 OK: '' @ Status resp)
               else (case Body resp of
                       Inl err \<Rightarrow> Error (''fail to unmarshal serviceConfig: '' @ err)
                     | Inr body \<Rightarrow>
                         (case unmarshalService w body of
                            Inl err \<Rightarrow> Error (''fail to unmarshal serviceConfig: '' @ err)
                          | Inr serviceConfig \<Rightarrow> Ok serviceConfig))))"

section \<open>The service-control filter builder\<close>

text \<open>
  \<^verbatim>\<open>rulesMap\<close> is a Go map from selector to a pointer to a rule. Each pointer is stored
  under exactly one key and reached only through the map, so an assignment through the
  looked-up pointer is an update of the map entry. The map is an association list with
  distinct keys; Go ranges over a map in no specified order, so only statements that do
  not depend on the order of the emitted rules are made.
\<close>

type_synonym rulesMap = "(string \<times> ServiceControlRule) list"

definition grpcUri :: "Api \<Rightarrow> Method \<Rightarrow> string" where
  "grpcUri api method = ''/'' @ Api_Name api @ ''/'' @ Method_Name method"

definition selector :: "Api \<Rightarrow> Method \<Rightarrow> string" where
  "selector api method = Api_Name api @ ''.'' @ Method_Name method"

definition seedMethod :: "Service \<Rightarrow> Api \<Rightarrow> Method \<Rightarrow> rulesMap \<Rightarrow> rulesMap" where
  "seedMethod serviceConfig api method rules =
     AList.update (selector api method)
       \<lparr>Requires = \<lparr>Requirement_ServiceName = Service_Name serviceConfig,
                    OperationName = selector api method,
                    ApiKey = None\<rparr>,
        Rule_Pattern = \<lparr>UriTemplate = grpcUri api method, HttpMethod = ''POST''\<rparr>\<rparr>
       rules"

definition seedRules :: "Service \<Rightarrow> rulesMap" where
  "seedRules serviceConfig =
     fold (\<lambda>api. fold (seedMethod serviceConfig api) (Methods api)) (Apis serviceConfig) []"

text \<open>The type switch on the pattern: the new pattern, or \<open>None\<close> when no case matches.\<close>

fun httpPattern :: "HttpPattern option \<Rightarrow> Pattern option" where
  "httpPattern (Some (HttpRule_Get t)) = Some \<lparr>UriTemplate = t, HttpMethod = ''GET''\<rparr>"
| "httpPattern (Some (HttpRule_Put t)) = Some \<lparr>UriTemplate = t, HttpMethod = ''PUT''\<rparr>"
| "httpPattern (Some (HttpRule_Post t)) = Some \<lparr>UriTemplate = t, HttpMethod = ''POST''\<rparr>"
| "httpPattern (Some (HttpRule_Delete t)) = Some \<lparr>UriTemplate = t, HttpMethod = ''DELETE''\<rparr>"
| "httpPattern (Some (HttpRule_Patch t)) = Some \<lparr>UriTemplate = t, HttpMethod = ''PATCH''\<rparr>"
| "httpPattern (Some (HttpRule_Custom k p)) = None"
| "httpPattern None = None"

text \<open>
  One iteration of the loop over \<^verbatim>\<open>http.rules\<close>. The lookup of a missing key gives nil and
  does not fail; the assignment \<^verbatim>\<open>scRule.Pattern = ...\<close> inside a matching case
  dereferences it.
\<close>

definition applyHttpRule :: "HttpRule \<Rightarrow> rulesMap \<Rightarrow> rulesMap result" where
  "applyHttpRule httpRule rules =
     (let scRule = map_of rules (HttpRule_Selector httpRule) in
      case httpPattern (HttpRule_Pattern httpRule) of
        None \<Rightarrow> Ok rules
      | Some p \<Rightarrow>
          (case scRule of
             None \<Rightarrow> Panic
           | Some r \<Rightarrow> Ok (AList.update (HttpRule_Selector httpRule) (r\<lparr>Rule_Pattern := p\<rparr>) rules)))"

text \<open>One iteration of the loop over \<^verbatim>\<open>usage.rules\<close>: \<^verbatim>\<open>scRule.Requires\<close> dereferences.\<close>

definition applyUsageRule :: "UsageRule \<Rightarrow> rulesMap \<Rightarrow> rulesMap result" where
  "applyUsageRule usageRule rules =
     (case map_of rules (UsageRule_Selector usageRule) of
        None \<Rightarrow> Panic
      | Some r \<Rightarrow>
          Ok (AList.update (UsageRule_Selector usageRule)
                (r\<lparr>Requires := (Requires r)\<lparr>ApiKey := Some
                     \<lparr>AllowWithoutApiKey = AllowUnregisteredCalls usageRule,
                      ApiKeys = [APIKey_Query ''key'', APIKey_Header ''x-api-key'']\<rparr>\<rparr>\<rparr>)
                rules))"

definition makeServiceControlFilter :: "Service \<Rightarrow> HttpFilter option result" where
  "makeServiceControlFilter serviceConfig =
     (if Service_Name serviceConfig = [] \<or> Control_Environment serviceConfig = [] then Ok None
      else
        let service = \<lparr>scService_ServiceName = Service_Name serviceConfig,
                       TokenUri = \<lparr>Uri = tokenUri, HttpUri_Cluster = ''gcp_metadata_cluster'',
                                   Timeout_Seconds = 5\<rparr>,
                       scService_ServiceControlUri =
                                  \<lparr>Uri = serviceControlUri,
                                   HttpUri_Cluster = ''service_control_cluster'',
                                   Timeout_Seconds = 5\<rparr>\<rparr>
        in
        case forEach applyHttpRule (Http_Rules serviceConfig) (seedRules serviceConfig) of
          Panic \<Rightarrow> Panic
        | Error e \<Rightarrow> Error e
        | Ok rules1 \<Rightarrow>
            (case forEach applyUsageRule (Usage_Rules serviceConfig) rules1 of
               Panic \<Rightarrow> Panic
             | Error e \<Rightarrow> Error e
             | Ok rules2 \<Rightarrow>
                 Ok (Some \<lparr>HttpFilter_Name = ServiceControl,
                           HttpFilter_Config = ServiceControlStruct
                             \<lparr>Services = [service],
                              FilterConfig_ServiceName = Service_Name serviceConfig,
                              FilterConfig_ServiceControlUri =
                                \<lparr>Uri = serviceControlUri,
                                 HttpUri_Cluster = ''service_control_cluster'',
                                 Timeout_Seconds = 5\<rparr>,
                              FilterConfig_Rules = map snd rules2\<rparr>\<rparr>)))"

section \<open>The JWT-authn filter builder\<close>

text \<open>
  The loop over the providers. \<^verbatim>\<open>providers\<close> is a Go map from provider id to the provider
  record, written only by plain assignment. Every iteration sends one request, so the
  fetches of a loop that starts at request number \<open>n\<close> are numbered \<open>n\<close>, \<open>n + 1\<close>, ...
  A fetch that returns an error leaves the loop (\<^verbatim>\<open>break\<close>); one that panics ends the call.
\<close>

definition makeJwtProvider :: "AuthProvider \<Rightarrow> string \<Rightarrow> JwtProvider" where
  "makeJwtProvider provider jwk =
     (let jp = \<lparr>JwtProvider_Issuer = Issuer provider,
                LocalJwks_InlineString = jwk,
                JwtProvider_Audiences = []\<rparr>
      in if length (AuthProvider_Audiences provider) \<noteq> 0
         then jp\<lparr>JwtProvider_Audiences := Split (AuthProvider_Audiences provider) CHR '',''\<rparr>
         else jp)"

fun collectProviders ::
  "World \<Rightarrow> nat \<Rightarrow> AuthProvider list \<Rightarrow> (string \<times> JwtProvider) list
     \<Rightarrow> (string \<times> JwtProvider) list result" where
  "collectProviders w n [] providers = Ok providers"
| "collectProviders w n (provider # rest) providers =
     (case fetchJwk w n (JwksUri provider) of
        Panic \<Rightarrow> Panic
      | Error err \<Rightarrow> Ok providers
      | Ok jwk \<Rightarrow>
          collectProviders w (Suc n) rest
            (AList.update (Id provider) (makeJwtProvider provider jwk) providers))"

definition makeRequire :: "AuthRequirement \<Rightarrow> JwtRequirement" where
  "makeRequire r =
     (if AuthRequirement_Audiences r = [] then ProviderName (ProviderId r)
      else ProviderAndAudiences (ProviderId r) (Split (AuthRequirement_Audiences r) CHR '',''))"

text \<open>
  One iteration of the inner loop over the requirements of a rule; \<open>n\<close> is
  \<^verbatim>\<open>len(rule.GetRequirements())\<close>. \<^verbatim>\<open>requires.GetRequiresAny()\<close> is nil when \<^verbatim>\<open>requires\<close> is
  not a \<^verbatim>\<open>RequiresAny\<close>, and the assignment to its field would then dereference nil.
\<close>

definition addRequire :: "nat \<Rightarrow> AuthRequirement \<Rightarrow> JwtRequirement \<Rightarrow> JwtRequirement result" where
  "addRequire n r requires =
     (let require = makeRequire r in
      if n = 1 then Ok require
      else (case requires of
              RequiresAny rs \<Rightarrow> Ok (RequiresAny (rs @ [require]))
            | _ \<Rightarrow> Panic))"

definition makeRequires :: "AuthenticationRule \<Rightarrow> JwtRequirement result" where
  "makeRequires rule =
     forEach (addRequire (length (Requirements rule))) (Requirements rule) (RequiresAny [])"

text \<open>
  The loop over the authentication rules. A rule without requirements leaves the loop
  (\<^verbatim>\<open>break\<close>). \<^verbatim>\<open>strings.Split\<close> never returns an empty slice, so \<^verbatim>\<open>m[len(m)-1]\<close> is its last
  element.
\<close>

fun makeJwtRules ::
  "Api \<Rightarrow> AuthenticationRule list \<Rightarrow> RequirementRule list \<Rightarrow> RequirementRule list result" where
  "makeJwtRules endpointApi [] rules = Ok rules"
| "makeJwtRules endpointApi (rule # rest) rules =
     (if length (Requirements rule) = 0 then Ok rules
      else
        case makeRequires rule of
          Panic \<Rightarrow> Panic
        | Error e \<Rightarrow> Error e
        | Ok requires \<Rightarrow>
            (let m = Split (AuthenticationRule_Selector rule) CHR ''.'';
                 ruleConfig = \<lparr>Match_Prefix = ''/'' @ Api_Name endpointApi @ ''/'' @ last m,
                               RequirementRule_Requires = requires\<rparr>
             in makeJwtRules endpointApi rest (rules @ [ruleConfig])))"

definition makeJwtAuthnFilter ::
  "World \<Rightarrow> nat \<Rightarrow> Service option \<Rightarrow> Api \<Rightarrow> HttpFilter option result" where
  "makeJwtAuthnFilter w n serviceConfig endpointApi =
     (case serviceConfig of
        None \<Rightarrow> Ok None
      | Some sc \<Rightarrow>
          (let auth = Service_Authentication sc in
           if length (Authentication_Providers auth) = 0 then Ok None
           else
             case collectProviders w n (Authentication_Providers auth) [] of
               Panic \<Rightarrow> Panic
             | Error e \<Rightarrow> Error e
             | Ok providers \<Rightarrow>
                 if length providers = 0 then Ok None
                 else
                   (case makeJwtRules endpointApi (Authentication_Rules auth) [] of
                      Panic \<Rightarrow> Panic
                    | Error e \<Rightarrow> Error e
                    | Ok rules \<Rightarrow>
                        Ok (Some \<lparr>HttpFilter_Name = JwtAuthn,
                                  HttpFilter_Config = JwtAuthnStruct
                                    \<lparr>JwtAuthentication_Providers = providers,
                                     JwtAuthentication_Rules = rules\<rparr>\<rparr>))))"

section \<open>The transcoder filter builder\<close>

text \<open>
  \<^verbatim>\<open>ptypes.UnmarshalAny\<close> into a fresh \<^verbatim>\<open>ConfigFile\<close>; its error is discarded, and on a
  type mismatch the target keeps its zero value.
\<close>

definition UnmarshalAny :: "Any \<Rightarrow> ConfigFile" where
  "UnmarshalAny sourceFile =
     (case sourceFile of
        Any_ConfigFile cf \<Rightarrow> cf
      | Any_Other url \<Rightarrow> \<lparr>ConfigFile_FileType = FILE_TYPE_UNSPECIFIED, FileContents = []\<rparr>)"

fun transcoderLoop :: "Any list \<Rightarrow> Api \<Rightarrow> HttpFilter option" where
  "transcoderLoop [] endpointApi = None"
| "transcoderLoop (sourceFile # rest) endpointApi =
     (let configFile = UnmarshalAny sourceFile in
      if ConfigFile_FileType configFile = FILE_DESCRIPTOR_SET_PROTO
      then Some \<lparr>HttpFilter_Name = GRPCJSONTranscoder,
                 HttpFilter_Config = TranscoderStruct
                   \<lparr>ProtoDescriptorBin = FileContents configFile,
                    GrpcJsonTranscoder_Services = [Api_Name endpointApi]\<rparr>\<rparr>
      else transcoderLoop rest endpointApi)"

definition makeTranscoderFilter :: "Service \<Rightarrow> Api \<Rightarrow> HttpFilter option" where
  "makeTranscoderFilter serviceConfig endpointApi =
     transcoderLoop (SourceFiles serviceConfig) endpointApi"

section \<open>Listener and snapshot\<close>

text \<open>
  Modelled from the spec: \<^verbatim>\<open>ut.BackendProtocol\<close> and its values \<^verbatim>\<open>ut.GRPC\<close> and \<^verbatim>\<open>ut.HTTP\<close>
  are declared in this repository's util package, outside the source tree. The spec gives
  the classifier the two outcomes \<open>GRPC\<close> and \<open>HTTP\<close>.
\<close>

datatype BackendProtocol = GRPC | HTTP

definition GetFileName :: "Api \<Rightarrow> string" where
  "GetFileName endpointApi =
     (case Api_SourceContext endpointApi of None \<Rightarrow> [] | Some c \<Rightarrow> FileName c)"

definition backendProtocolOf :: "string \<Rightarrow> BackendProtocol option" where
  "backendProtocolOf fileName =
     (if HasSuffix fileName ''.proto'' then Some GRPC
      else if HasSuffix fileName ''.yaml'' then Some HTTP
      else None)"

text \<open>\<^verbatim>\<open>append(httpFilters, f)\<close> guarded by \<^verbatim>\<open>f != nil\<close>.\<close>

definition appendIfSet :: "HttpFilter list \<Rightarrow> HttpFilter option \<Rightarrow> HttpFilter list" where
  "appendIfSet httpFilters f = (case f of None \<Rightarrow> httpFilters | Some x \<Rightarrow> httpFilters @ [x])"

definition routerFilter :: HttpFilter where
  "routerFilter = \<lparr>HttpFilter_Name = Router, HttpFilter_Config = EmptyStruct\<rparr>"

definition makeListener ::
  "World \<Rightarrow> nat \<Rightarrow> Service \<Rightarrow> Api \<Rightarrow> (Listener \<times> HttpConnectionManager) result" where
  "makeListener w n serviceConfig endpointApi =
     (case backendProtocolOf (GetFileName endpointApi) of
        None \<Rightarrow> Error ''unknown backend protocol''
      | Some backendProtocol \<Rightarrow>
          (case makeJwtAuthnFilter w n (Some serviceConfig) endpointApi of
             Panic \<Rightarrow> Panic
           | Error e \<Rightarrow> Error e
           | Ok jwtAuthnFilter \<Rightarrow>
               (let httpFilters = appendIfSet [] jwtAuthnFilter in
                case makeServiceControlFilter serviceConfig of
                  Panic \<Rightarrow> Panic
                | Error e \<Rightarrow> Error e
                | Ok serviceControlFilter \<Rightarrow>
                    (let httpFilters = appendIfSet httpFilters serviceControlFilter;
                         httpFilters =
                           (if backendProtocol = GRPC
                            then appendIfSet httpFilters
                                   (makeTranscoderFilter serviceConfig endpointApi)
                            else httpFilters);
                         httpFilters = httpFilters @ [routerFilter];
                         httpConMgr =
                           \<lparr>Codec = AUTO,
                            StatPrefix = statPrefix,
                            RouteConfig =
                              \<lparr>RouteConfiguration_Name = routeName,
                               VirtualHosts =
                                 [\<lparr>VirtualHost_Name = virtualHostName,
                                   Domains = [''*''],
                                   Routes = [\<lparr>RouteMatch_Prefix = ''/'',
                                              RouteAction_Cluster = Api_Name endpointApi\<rparr>]\<rparr>]\<rparr>,
                            HttpFilters = httpFilters\<rparr>
                     in Ok (\<lparr>Listener_Address =
                               \<lparr>Address = listenerAddress (flags w),
                                PortValue = ucast (listenerPort (flags w))\<rparr>,
                             FilterChains = []\<rparr>,
                            httpConMgr)))))"

definition makeSnapshot ::
  "World \<Rightarrow> nat \<Rightarrow> ConfigManager \<Rightarrow> Service \<Rightarrow> Snapshot result" where
  "makeSnapshot w n m serviceConfig =
     (case Apis serviceConfig of
        [] \<Rightarrow> Error ''service config must have one api at least''
      | endpointApi # others \<Rightarrow>
          (case makeListener w n serviceConfig endpointApi of
             Panic \<Rightarrow> Panic
           | Error e \<Rightarrow> Error e
           | Ok (serverlistener, httpManager) \<Rightarrow>
               (case structError w httpManager of
                  Some e \<Rightarrow> Error e
                | None \<Rightarrow>
                    (let serverlistener = serverlistener\<lparr>FilterChains :=
                           [\<lparr>Filters = [\<lparr>ListenerFilter_Name = HTTPConnectionManager,
                                         ListenerFilter_Config = httpManager\<rparr>]\<rparr>]\<rparr>;
                         cluster =
                           \<lparr>Cluster_Name = Api_Name endpointApi,
                            Cluster_LbPolicy = ROUND_ROBIN,
                            ConnectTimeout = clusterConnectTimeout (flags w),
                            Hosts = [\<lparr>Address = clusterAddress (flags w),
                                      PortValue = ucast (clusterPort (flags w))\<rparr>]\<rparr>
                     in Ok (NewSnapshot (configID m) [] [ClusterResource cluster] []
                              [ListenerResource serverlistener])))))"

section \<open>Start-up\<close>

text \<open>
  The client sends its first request of the start-up (number 0) to the management service;
  the requests for the key sets follow it.
\<close>

definition fetchConfig :: "World \<Rightarrow> ConfigManager \<Rightarrow> string \<Rightarrow> Service result" where
  "fetchConfig w m configId =
     (case fetchAccessToken w of
        Inl err \<Rightarrow> Error ''fail to get access token''
      | Inr token \<Rightarrow>
          callServiceManagement w 0 (fetchConfigURL w (serviceName m) configId) token)"

text \<open>
  \<^verbatim>\<open>init\<close> returns its error (\<open>Ok ()\<close> for nil) and leaves the manager, whose cache it may
  have written.
\<close>

definition init :: "World \<Rightarrow> ConfigManager \<Rightarrow> unit result \<times> ConfigManager" where
  "init w m =
     (case fetchConfig w m (configID m) of
        Panic \<Rightarrow> (Panic, m)
      | Error err \<Rightarrow> (Error (''fail to initialize config manager, '' @ err), m)
      | Ok serviceConfig \<Rightarrow>
          (case makeSnapshot w 1 m serviceConfig of
             Panic \<Rightarrow> (Panic, m)
           | Error err \<Rightarrow> (Error (''fail to make a snapshot, '' @ err), m)
           | Ok snapshot \<Rightarrow>
               (Ok (), m\<lparr>cache := SetSnapshot (node (flags w)) snapshot (cache m)\<rparr>)))"

definition NewConfigManager :: "World \<Rightarrow> string \<Rightarrow> string \<Rightarrow> ConfigManager result" where
  "NewConfigManager w name cid =
     (let m = \<lparr>serviceName = name, configID = cid, cache = []\<rparr> in
      case init w m of
        (Ok u, m') \<Rightarrow> Ok m'
      | (Error err, m') \<Rightarrow> Error err
      | (Panic, m') \<Rightarrow> Panic)"

section \<open>Vocabulary of the properties\<close>

text \<open>The seeded rule that a selector is bound to.\<close>

definition seeded :: "Service \<Rightarrow> string \<Rightarrow> ServiceControlRule \<Rightarrow> bool" where
  "seeded sc k r \<longleftrightarrow>
     Requirement_ServiceName (Requires r) = Service_Name sc \<and>
     OperationName (Requires r) = k \<and>
     ApiKey (Requires r) = None \<and>
     (\<exists>api\<in>set (Apis sc). \<exists>method\<in>set (Methods api).
        k = selector api method \<and>
        Rule_Pattern r = \<lparr>UriTemplate = grpcUri api method, HttpMethod = ''POST''\<rparr>)"


text \<open>The requirement rule that an authentication rule with requirements stands for.\<close>

definition jwtRuleOf :: "Api \<Rightarrow> AuthenticationRule \<Rightarrow> RequirementRule" where
  "jwtRuleOf endpointApi rule =
     \<lparr>Match_Prefix = ''/'' @ Api_Name endpointApi @ ''/'' @
                       last (Split (AuthenticationRule_Selector rule) CHR ''.''),
      RequirementRule_Requires =
        (case Requirements rule of
           [r] \<Rightarrow> makeRequire r
         | rs \<Rightarrow> RequiresAny (map makeRequire rs))\<rparr>"

section \<open>Example documents\<close>

definition storeApi :: Api where
  "storeApi = \<lparr>Api_Name = ''pets.Store'',
               Methods = [\<lparr>Method_Name = ''Get''\<rparr>, \<lparr>Method_Name = ''List''\<rparr>],
               Api_SourceContext = Some \<lparr>FileName = ''store.proto''\<rparr>\<rparr>"

definition storeDoc :: Service where
  "storeDoc = \<lparr>Service_Name = ''store.example.com'',
               Apis = [storeApi],
               Service_Authentication =
                 \<lparr>Authentication_Rules =
                    [\<lparr>AuthenticationRule_Selector = ''pets.Store.Get'',
                      Requirements = [\<lparr>ProviderId = ''google'', AuthRequirement_Audiences = []\<rparr>]\<rparr>],
                  Authentication_Providers =
                    [\<lparr>Id = ''google'', Issuer = ''https://accounts.example.com'',
                      JwksUri = ''https://keys.example.com/jwks'',
                      AuthProvider_Audiences = []\<rparr>]\<rparr>,
               Http_Rules = [\<lparr>HttpRule_Selector = ''pets.Store.Get'',
                              HttpRule_Pattern = Some (HttpRule_Get ''/pets/{id}'')\<rparr>],
               Usage_Rules = [\<lparr>UsageRule_Selector = ''pets.Store.List'',
                               AllowUnregisteredCalls = True\<rparr>],
               Control_Environment = ''servicecontrol.googleapis.com'',
               SourceFiles = [Any_ConfigFile \<lparr>ConfigFile_FileType = FILE_DESCRIPTOR_SET_PROTO,
                                              FileContents = ''descriptor''\<rparr>]\<rparr>"

definition collidingDoc :: Service where
  "collidingDoc = \<lparr>Service_Name = ''svc'',
     Apis = [\<lparr>Api_Name = ''a.b'', Methods = [\<lparr>Method_Name = ''c''\<rparr>], Api_SourceContext = None\<rparr>,
             \<lparr>Api_Name = ''a'', Methods = [\<lparr>Method_Name = ''b.c''\<rparr>], Api_SourceContext = None\<rparr>],
     Service_Authentication = \<lparr>Authentication_Rules = [], Authentication_Providers = []\<rparr>,
     Http_Rules = [], Usage_Rules = [], Control_Environment = ''env'', SourceFiles = []\<rparr>"


definition repeatedUsageDoc :: Service where
  "repeatedUsageDoc = \<lparr>Service_Name = ''svc'',
     Apis = [\<lparr>Api_Name = ''a'', Methods = [\<lparr>Method_Name = ''m''\<rparr>], Api_SourceContext = None\<rparr>],
     Service_Authentication = \<lparr>Authentication_Rules = [], Authentication_Providers = []\<rparr>,
     Http_Rules = [],
     Usage_Rules = [\<lparr>UsageRule_Selector = ''a.m'', AllowUnregisteredCalls = True\<rparr>,
                    \<lparr>UsageRule_Selector = ''a.m'', AllowUnregisteredCalls = False\<rparr>],
     Control_Environment = ''env'', SourceFiles = []\<rparr>"

definition repeatedHttpDoc :: Service where
  "repeatedHttpDoc = \<lparr>Service_Name = ''svc'',
     Apis = [\<lparr>Api_Name = ''a'', Methods = [\<lparr>Method_Name = ''m''\<rparr>], Api_SourceContext = None\<rparr>],
     Service_Authentication = \<lparr>Authentication_Rules = [], Authentication_Providers = []\<rparr>,
     Http_Rules = [\<lparr>HttpRule_Selector = ''a.m'', HttpRule_Pattern = Some (HttpRule_Get ''/x'')\<rparr>,
                   \<lparr>HttpRule_Selector = ''a.m'', HttpRule_Pattern = Some (HttpRule_Post ''/y'')\<rparr>],
     Usage_Rules = [],
     Control_Environment = ''env'', SourceFiles = []\<rparr>"

definition customHttpDoc :: Service where
  "customHttpDoc = \<lparr>Service_Name = ''svc'',
     Apis = [\<lparr>Api_Name = ''a'', Methods = [\<lparr>Method_Name = ''m''\<rparr>], Api_SourceContext = None\<rparr>],
     Service_Authentication = \<lparr>Authentication_Rules = [], Authentication_Providers = []\<rparr>,
     Http_Rules = [\<lparr>HttpRule_Selector = ''a.zz'',
                    HttpRule_Pattern = Some (HttpRule_Custom ''HEAD'' ''/x'')\<rparr>],
     Usage_Rules = [],
     Control_Environment = ''env'', SourceFiles = []\<rparr>"

definition unnamedDoc :: Service where
  "unnamedDoc = \<lparr>Service_Name = [],
     Apis = [\<lparr>Api_Name = ''a'', Methods = [\<lparr>Method_Name = ''m''\<rparr>], Api_SourceContext = None\<rparr>],
     Service_Authentication = \<lparr>Authentication_Rules = [], Authentication_Providers = []\<rparr>,
     Http_Rules = [],
     Usage_Rules = [\<lparr>UsageRule_Selector = ''a.zz'', AllowUnregisteredCalls = True\<rparr>],
     Control_Environment = ''env'', SourceFiles = []\<rparr>"

definition unmatchedUsageDoc :: Service where
  "unmatchedUsageDoc = unnamedDoc\<lparr>Service_Name := ''svc''\<rparr>"


definition exampleFlags :: Flags where
  "exampleFlags = \<lparr>listenerAddress = ''0.0.0.0'', clusterAddress = ''127.0.0.1'',
     serviceManagementURL = ''https://servicemanagement.googleapis.com'',
     node = ''api_proxy'', listenerPort = 8080, clusterPort = 8082,
     clusterConnectTimeout = 20000000000\<rparr>"

definition untypedDoc :: Service where
  "untypedDoc = storeDoc\<lparr>Apis := [storeApi\<lparr>Api_SourceContext := Some \<lparr>FileName = ''store.json''\<rparr>\<rparr>]\<rparr>"

text \<open>
  A world in which the token is granted, every URL that starts with \<open>http\<close> parses, the
  management service answers for the configuration \<open>r0\<close> of the store and of the untyped
  service, one JWKS endpoint answers, and every other request gets a 404.
\<close>

definition exampleWorld :: World where
  "exampleWorld = \<lparr>flags = exampleFlags,
     fetchAccessToken = Inr ''token'',
     urlParses = (\<lambda>url. prefix ''http'' url),
     roundTrip = (\<lambda>n req.
        if Request_URL req = ''https://servicemanagement.googleapis.com/v1/services/store.example.com/configs/r0?view=FULL''
        then Inr \<lparr>StatusCode = 200, Status = ''200 OK'', Body = Inr ''json of store''\<rparr>
        else if Request_URL req = ''https://servicemanagement.googleapis.com/v1/services/untyped.example.com/configs/r0?view=FULL''
        then Inr \<lparr>StatusCode = 200, Status = ''200 OK'', Body = Inr ''json of untyped''\<rparr>
        else if Request_URL req = ''https://keys.example.com/jwks''
        then Inr \<lparr>StatusCode = 200, Status = ''200 OK'', Body = Inr ''jwks of google''\<rparr>
        else Inr \<lparr>StatusCode = 404, Status = ''404 Not Found'', Body = Inr []\<rparr>),
     unmarshalService = (\<lambda>body.
        if body = ''json of store'' then Inr storeDoc
        else if body = ''json of untyped'' then Inr untypedDoc
        else Inl ''unexpected EOF''),
     structError = (\<lambda>h. None)\<rparr>"

definition storeManager :: ConfigManager where
  "storeManager = \<lparr>serviceName = ''store.example.com'', configID = ''r0'', cache = []\<rparr>"

definition untypedManager :: ConfigManager where
  "untypedManager = \<lparr>serviceName = ''untyped.example.com'', configID = ''r0'', cache = []\<rparr>"

definition emptyRuleDoc :: Service where
  "emptyRuleDoc = storeDoc\<lparr>Service_Authentication :=
     (Service_Authentication storeDoc)\<lparr>Authentication_Rules :=
        [\<lparr>AuthenticationRule_Selector = ''pets.Store.Get'', Requirements = []\<rparr>,
         \<lparr>AuthenticationRule_Selector = ''pets.Store.List'',
           Requirements = [\<lparr>ProviderId = ''google'', AuthRequirement_Audiences = []\<rparr>]\<rparr>]\<rparr>\<rparr>"


definition foreignSelectorDoc :: Service where
  "foreignSelectorDoc = storeDoc\<lparr>Service_Authentication :=
     (Service_Authentication storeDoc)\<lparr>Authentication_Rules :=
        [\<lparr>AuthenticationRule_Selector = ''admin.Panel.v1.Reset'',
          Requirements = [\<lparr>ProviderId = ''google'', AuthRequirement_Audiences = []\<rparr>]\<rparr>]\<rparr>\<rparr>"



section \<open>Loops and lookups\<close>

lemma forEach_append:
  "forEach body (xs @ ys) s =
     (case forEach body xs s of Ok s' \<Rightarrow> forEach body ys s' | Error e \<Rightarrow> Error e | Panic \<Rightarrow> Panic)"
  by (induction xs arbitrary: s) (auto split: result.splits)

lemma forEach_invariant:
  assumes "forEach body xs s = Ok s'" and "P s"
    and "\<And>x t t'. x \<in> set xs \<Longrightarrow> P t \<Longrightarrow> body x t = Ok t' \<Longrightarrow> P t'"
  shows "P s'"
  using assms
proof (induction xs arbitrary: s)
  case Nil
  then show ?case by simp
next
  case (Cons x xs)
  from Cons.prems(1) obtain t where t: "body x s = Ok t" and rest: "forEach body xs t = Ok s'"
    by (auto split: result.splits)
  have "P t" using Cons.prems(3)[of x s t] Cons.prems(2) t by simp
  show ?case
  proof (rule Cons.IH[OF rest \<open>P t\<close>])
    fix y u u' assume "y \<in> set xs" "P u" "body y u = Ok u'"
    then show "P u'" using Cons.prems(3)[of y u u'] by simp
  qed
qed

lemma fold_invariant:
  assumes "P s" and "\<And>x t. x \<in> set xs \<Longrightarrow> P t \<Longrightarrow> P (f x t)"
  shows "P (fold f xs s)"
  using assms by (induction xs arbitrary: s) simp_all

lemma filter_key_distinct:
  "distinct (map fst al) \<Longrightarrow> map_of al k = Some v \<Longrightarrow> filter (\<lambda>p. fst p = k) al = [(k, v)]"
proof (induction al)
  case Nil
  then show ?case by simp
next
  case (Cons p al)
  show ?case
  proof (cases "fst p = k")
    case True
    with Cons.prems have "p = (k, v)" by (cases p) simp
    moreover have "filter (\<lambda>p. fst p = k) al = []"
      using Cons.prems(1) True by (auto simp: filter_empty_conv image_iff)
    ultimately show ?thesis by simp
  next
    case False
    with Cons show ?thesis by (cases p) auto
  qed
qed

lemma seedRules_inv:
  "distinct (map fst (seedRules sc)) \<and> (\<forall>k r. map_of (seedRules sc) k = Some r \<longrightarrow> seeded sc k r)"
  unfolding seedRules_def
proof (rule fold_invariant)
  show "distinct (map fst []) \<and> (\<forall>k r. map_of ([]::rulesMap) k = Some r \<longrightarrow> seeded sc k r)"
    by simp
next
  fix api t
  assume api: "api \<in> set (Apis sc)"
    and t: "distinct (map fst t) \<and> (\<forall>k r. map_of t k = Some r \<longrightarrow> seeded sc k r)"
  show "distinct (map fst (fold (seedMethod sc api) (Methods api) t)) \<and>
        (\<forall>k r. map_of (fold (seedMethod sc api) (Methods api) t) k = Some r \<longrightarrow> seeded sc k r)"
  proof (rule fold_invariant)
    show "distinct (map fst t) \<and> (\<forall>k r. map_of t k = Some r \<longrightarrow> seeded sc k r)" by (rule t)
  next
    fix mth u
    assume m: "mth \<in> set (Methods api)"
      and u: "distinct (map fst u) \<and> (\<forall>k r. map_of u k = Some r \<longrightarrow> seeded sc k r)"
    show "distinct (map fst (seedMethod sc api mth u)) \<and>
          (\<forall>k r. map_of (seedMethod sc api mth u) k = Some r \<longrightarrow> seeded sc k r)"
      using u api m
      by (auto simp: seedMethod_def distinct_update update_conv' seeded_def)
  qed
qed

lemma seedRules_keys:
  "fst ` set (seedRules sc) =
     {selector api method | api method. api \<in> set (Apis sc) \<and> method \<in> set (Methods api)}"
proof -
  have inner: "fst ` set (fold (seedMethod sc api) ms t) = fst ` set t \<union> selector api ` set ms"
    for api ms t
    by (induction ms arbitrary: t) (auto simp: seedMethod_def dom_update)
  have outer: "fst ` set (fold (\<lambda>api. fold (seedMethod sc api) (Methods api)) as t) =
        fst ` set t \<union> {selector api method | api method. api \<in> set as \<and> method \<in> set (Methods api)}"
    for as t
    by (induction as arbitrary: t) (auto simp: inner)
  show ?thesis unfolding seedRules_def by (simp add: outer)
qed


lemma map_of_key: "map_of t k = Some v \<Longrightarrow> k \<in> fst ` set t"
  by (metis map_of_eq_None_iff option.distinct(1))

lemma update_present_keys: "map_of t k = Some v \<Longrightarrow> map fst (AList.update k v' t) = map fst t"
  by (simp add: update_keys map_of_key)

lemma applyHttpRule_Ok:
  assumes "applyHttpRule h t = Ok t'"
  shows "map fst t' = map fst t"
    and "map_of t' k = Some r' \<Longrightarrow>
           \<exists>r. map_of t k = Some r \<and> Requires r' = Requires r \<and>
               (Rule_Pattern r' = Rule_Pattern r \<or>
                (HttpRule_Selector h = k \<and> httpPattern (HttpRule_Pattern h) = Some (Rule_Pattern r')))"
proof -
  show "map fst t' = map fst t"
    using assms
    by (auto simp: applyHttpRule_def update_present_keys split: option.splits)
  assume "map_of t' k = Some r'"
  then show "\<exists>r. map_of t k = Some r \<and> Requires r' = Requires r \<and>
               (Rule_Pattern r' = Rule_Pattern r \<or>
                (HttpRule_Selector h = k \<and> httpPattern (HttpRule_Pattern h) = Some (Rule_Pattern r')))"
    using assms
    by (auto simp: applyHttpRule_def update_conv' split: option.splits if_splits)
qed

lemma applyHttpRule_hit:
  assumes "applyHttpRule h t = Ok t'" and "httpPattern (HttpRule_Pattern h) = Some p"
  shows "\<exists>r. map_of t' (HttpRule_Selector h) = Some r \<and> Rule_Pattern r = p"
  using assms by (auto simp: applyHttpRule_def update_conv' split: option.splits)

lemma applyHttpRule_Panic:
  "applyHttpRule h t = Panic \<longleftrightarrow>
     httpPattern (HttpRule_Pattern h) \<noteq> None \<and> HttpRule_Selector h \<notin> fst ` set t"
  by (auto simp: applyHttpRule_def map_of_eq_None_iff split: option.splits dest: map_of_key)

lemma applyHttpRule_no_Error: "applyHttpRule h t \<noteq> Error e"
  by (auto simp: applyHttpRule_def split: option.splits)

lemma http_loop_Ok:
  assumes "forEach applyHttpRule hs t = Ok t'"
  shows "map fst t' = map fst t \<and>
         (\<forall>k r'. map_of t' k = Some r' \<longrightarrow>
            (\<exists>r. map_of t k = Some r \<and> Requires r' = Requires r \<and>
               (Rule_Pattern r' = Rule_Pattern r \<or>
                (\<exists>h\<in>set hs. HttpRule_Selector h = k \<and>
                    httpPattern (HttpRule_Pattern h) = Some (Rule_Pattern r')))))"
  using assms
proof (induction hs arbitrary: t)
  case Nil
  then show ?case by simp
next
  case (Cons h hs)
  from Cons.prems obtain u where u: "applyHttpRule h t = Ok u" and rest: "forEach applyHttpRule hs u = Ok t'"
    by (auto split: result.splits)
  note ih = Cons.IH[OF rest]
  have keys: "map fst t' = map fst t" using ih applyHttpRule_Ok(1)[OF u] by simp
  have "\<exists>r. map_of t k = Some r \<and> Requires r' = Requires r \<and>
               (Rule_Pattern r' = Rule_Pattern r \<or>
                (\<exists>h\<in>set (h # hs). HttpRule_Selector h = k \<and>
                    httpPattern (HttpRule_Pattern h) = Some (Rule_Pattern r')))"
    if r': "map_of t' k = Some r'" for k r'
  proof -
    from ih r' obtain ru where ru: "map_of u k = Some ru" "Requires r' = Requires ru"
      "Rule_Pattern r' = Rule_Pattern ru \<or>
        (\<exists>h\<in>set hs. HttpRule_Selector h = k \<and> httpPattern (HttpRule_Pattern h) = Some (Rule_Pattern r'))"
      by blast
    from applyHttpRule_Ok(2)[OF u ru(1)] obtain r where r: "map_of t k = Some r"
      "Requires ru = Requires r"
      "Rule_Pattern ru = Rule_Pattern r \<or>
         (HttpRule_Selector h = k \<and> httpPattern (HttpRule_Pattern h) = Some (Rule_Pattern ru))"
      by blast
    show ?thesis using ru r by auto
  qed
  with keys show ?case by blast
qed

lemma http_loop_Panic:
  "forEach applyHttpRule hs t = Panic \<longleftrightarrow>
     (\<exists>h\<in>set hs. httpPattern (HttpRule_Pattern h) \<noteq> None \<and> HttpRule_Selector h \<notin> fst ` set t)"
proof (induction hs arbitrary: t)
  case Nil
  then show ?case by simp
next
  case (Cons h hs)
  show ?case
  proof (cases "applyHttpRule h t")
    case (Ok u)
    then have "fst ` set u = fst ` set t"
      using applyHttpRule_Ok(1)[OF Ok] by (metis set_map)
    moreover have "\<not> (httpPattern (HttpRule_Pattern h) \<noteq> None \<and> HttpRule_Selector h \<notin> fst ` set t)"
      using Ok applyHttpRule_Panic[of h t] by simp
    ultimately show ?thesis using Ok Cons.IH[of u] by auto
  next
    case (Error e)
    then show ?thesis using applyHttpRule_no_Error by blast
  next
    case Panic
    then show ?thesis using applyHttpRule_Panic[of h t] by auto
  qed
qed

lemma http_loop_no_Error: "forEach applyHttpRule hs t \<noteq> Error e"
  by (induction hs arbitrary: t) (auto split: result.splits simp: applyHttpRule_no_Error)

lemma http_loop_last:
  assumes "forEach applyHttpRule (pre @ h # post) t = Ok t'"
    and "httpPattern (HttpRule_Pattern h) = Some p"
    and "\<forall>h'\<in>set post. HttpRule_Selector h' = HttpRule_Selector h \<longrightarrow>
            httpPattern (HttpRule_Pattern h') = None"
  shows "\<exists>r. map_of t' (HttpRule_Selector h) = Some r \<and> Rule_Pattern r = p"
proof -
  from assms(1) obtain ta tb where "forEach applyHttpRule pre t = Ok ta"
    and hb: "applyHttpRule h ta = Ok tb" and post: "forEach applyHttpRule post tb = Ok t'"
    by (auto simp: forEach_append split: result.splits)
  from applyHttpRule_hit[OF hb assms(2)] obtain rb
    where rb: "map_of tb (HttpRule_Selector h) = Some rb" "Rule_Pattern rb = p" by blast
  note lp = http_loop_Ok[OF post]
  have "HttpRule_Selector h \<in> fst ` set t'"
    using lp rb(1) by (metis map_of_eq_None_iff option.distinct(1) set_map)
  then obtain r' where r': "map_of t' (HttpRule_Selector h) = Some r'"
    by (metis map_of_eq_None_iff not_Some_eq)
  with lp rb assms(3) have "Rule_Pattern r' = p" by fastforce
  with r' show ?thesis by blast
qed


lemma applyUsageRule_Ok:
  assumes "applyUsageRule u t = Ok t'"
  shows "map fst t' = map fst t"
    and "map_of t' k = Some r' \<Longrightarrow>
           \<exists>r. map_of t k = Some r \<and> Rule_Pattern r' = Rule_Pattern r \<and>
               Requirement_ServiceName (Requires r') = Requirement_ServiceName (Requires r) \<and>
               OperationName (Requires r') = OperationName (Requires r) \<and>
               (ApiKey (Requires r') = ApiKey (Requires r) \<or>
                (UsageRule_Selector u = k \<and>
                 ApiKey (Requires r') = Some
                   \<lparr>AllowWithoutApiKey = AllowUnregisteredCalls u,
                    ApiKeys = [APIKey_Query ''key'', APIKey_Header ''x-api-key'']\<rparr>))"
proof -
  show "map fst t' = map fst t"
    using assms
    by (auto simp: applyUsageRule_def update_present_keys split: option.splits)
  assume "map_of t' k = Some r'"
  then show "\<exists>r. map_of t k = Some r \<and> Rule_Pattern r' = Rule_Pattern r \<and>
               Requirement_ServiceName (Requires r') = Requirement_ServiceName (Requires r) \<and>
               OperationName (Requires r') = OperationName (Requires r) \<and>
               (ApiKey (Requires r') = ApiKey (Requires r) \<or>
                (UsageRule_Selector u = k \<and>
                 ApiKey (Requires r') = Some
                   \<lparr>AllowWithoutApiKey = AllowUnregisteredCalls u,
                    ApiKeys = [APIKey_Query ''key'', APIKey_Header ''x-api-key'']\<rparr>))"
    using assms
    by (auto simp: applyUsageRule_def update_conv' split: option.splits if_splits)
qed

lemma applyUsageRule_hit:
  assumes "applyUsageRule u t = Ok t'"
  shows "\<exists>r. map_of t' (UsageRule_Selector u) = Some r \<and>
             ApiKey (Requires r) = Some
               \<lparr>AllowWithoutApiKey = AllowUnregisteredCalls u,
                ApiKeys = [APIKey_Query ''key'', APIKey_Header ''x-api-key'']\<rparr>"
  using assms by (auto simp: applyUsageRule_def update_conv' split: option.splits)

lemma applyUsageRule_Panic:
  "applyUsageRule u t = Panic \<longleftrightarrow> UsageRule_Selector u \<notin> fst ` set t"
  by (auto simp: applyUsageRule_def map_of_eq_None_iff split: option.splits dest: map_of_key)

lemma applyUsageRule_no_Error: "applyUsageRule u t \<noteq> Error e"
  by (auto simp: applyUsageRule_def split: option.splits)

lemma usage_loop_Ok:
  assumes "forEach applyUsageRule us t = Ok t'"
  shows "map fst t' = map fst t \<and>
         (\<forall>k r'. map_of t' k = Some r' \<longrightarrow>
            (\<exists>r. map_of t k = Some r \<and> Rule_Pattern r' = Rule_Pattern r \<and>
               Requirement_ServiceName (Requires r') = Requirement_ServiceName (Requires r) \<and>
               OperationName (Requires r') = OperationName (Requires r) \<and>
               (ApiKey (Requires r') = ApiKey (Requires r) \<or>
                (\<exists>u\<in>set us. UsageRule_Selector u = k \<and>
                   ApiKey (Requires r') = Some
                     \<lparr>AllowWithoutApiKey = AllowUnregisteredCalls u,
                      ApiKeys = [APIKey_Query ''key'', APIKey_Header ''x-api-key'']\<rparr>))))"
  using assms
proof (induction us arbitrary: t)
  case Nil
  then show ?case by simp
next
  case (Cons u us)
  from Cons.prems obtain v where v: "applyUsageRule u t = Ok v"
    and rest: "forEach applyUsageRule us v = Ok t'"
    by (auto split: result.splits)
  note ih = Cons.IH[OF rest]
  have keys: "map fst t' = map fst t" using ih applyUsageRule_Ok(1)[OF v] by simp
  have "\<exists>r. map_of t k = Some r \<and> Rule_Pattern r' = Rule_Pattern r \<and>
               Requirement_ServiceName (Requires r') = Requirement_ServiceName (Requires r) \<and>
               OperationName (Requires r') = OperationName (Requires r) \<and>
               (ApiKey (Requires r') = ApiKey (Requires r) \<or>
                (\<exists>u\<in>set (u # us). UsageRule_Selector u = k \<and>
                   ApiKey (Requires r') = Some
                     \<lparr>AllowWithoutApiKey = AllowUnregisteredCalls u,
                      ApiKeys = [APIKey_Query ''key'', APIKey_Header ''x-api-key'']\<rparr>))"
    if r': "map_of t' k = Some r'" for k r'
  proof -
    from ih r' obtain rv where rv: "map_of v k = Some rv" "Rule_Pattern r' = Rule_Pattern rv"
      "Requirement_ServiceName (Requires r') = Requirement_ServiceName (Requires rv)"
      "OperationName (Requires r') = OperationName (Requires rv)"
      "ApiKey (Requires r') = ApiKey (Requires rv) \<or>
        (\<exists>u\<in>set us. UsageRule_Selector u = k \<and>
           ApiKey (Requires r') = Some
             \<lparr>AllowWithoutApiKey = AllowUnregisteredCalls u,
              ApiKeys = [APIKey_Query ''key'', APIKey_Header ''x-api-key'']\<rparr>)"
      by blast
    from applyUsageRule_Ok(2)[OF v rv(1)] obtain r where r: "map_of t k = Some r"
      "Rule_Pattern rv = Rule_Pattern r"
      "Requirement_ServiceName (Requires rv) = Requirement_ServiceName (Requires r)"
      "OperationName (Requires rv) = OperationName (Requires r)"
      "ApiKey (Requires rv) = ApiKey (Requires r) \<or>
         (UsageRule_Selector u = k \<and>
          ApiKey (Requires rv) = Some
            \<lparr>AllowWithoutApiKey = AllowUnregisteredCalls u,
             ApiKeys = [APIKey_Query ''key'', APIKey_Header ''x-api-key'']\<rparr>)"
      by blast
    show ?thesis using rv r by auto
  qed
  with keys show ?case by blast
qed

lemma usage_loop_Panic:
  "forEach applyUsageRule us t = Panic \<longleftrightarrow> (\<exists>u\<in>set us. UsageRule_Selector u \<notin> fst ` set t)"
proof (induction us arbitrary: t)
  case Nil
  then show ?case by simp
next
  case (Cons u us)
  show ?case
  proof (cases "applyUsageRule u t")
    case (Ok v)
    then have "fst ` set v = fst ` set t"
      using applyUsageRule_Ok(1)[OF Ok] by (metis set_map)
    moreover have "UsageRule_Selector u \<in> fst ` set t"
      using Ok applyUsageRule_Panic[of u t] by simp
    ultimately show ?thesis using Ok Cons.IH[of v] by auto
  next
    case (Error e)
    then show ?thesis using applyUsageRule_no_Error by blast
  next
    case Panic
    then show ?thesis using applyUsageRule_Panic[of u t] by auto
  qed
qed

lemma usage_loop_no_Error: "forEach applyUsageRule us t \<noteq> Error e"
  by (induction us arbitrary: t) (auto split: result.splits simp: applyUsageRule_no_Error)

lemma usage_loop_last:
  assumes "forEach applyUsageRule (pre @ u # post) t = Ok t'"
    and "\<forall>u'\<in>set post. UsageRule_Selector u' \<noteq> UsageRule_Selector u"
  shows "\<exists>r. map_of t' (UsageRule_Selector u) = Some r \<and>
             ApiKey (Requires r) = Some
               \<lparr>AllowWithoutApiKey = AllowUnregisteredCalls u,
                ApiKeys = [APIKey_Query ''key'', APIKey_Header ''x-api-key'']\<rparr>"
proof -
  from assms(1) obtain ta tb where "forEach applyUsageRule pre t = Ok ta"
    and ub: "applyUsageRule u ta = Ok tb" and post: "forEach applyUsageRule post tb = Ok t'"
    by (auto simp: forEach_append split: result.splits)
  from applyUsageRule_hit[OF ub] obtain rb
    where rb: "map_of tb (UsageRule_Selector u) = Some rb"
      "ApiKey (Requires rb) = Some
         \<lparr>AllowWithoutApiKey = AllowUnregisteredCalls u,
          ApiKeys = [APIKey_Query ''key'', APIKey_Header ''x-api-key'']\<rparr>" by blast
  note lp = usage_loop_Ok[OF post]
  have "UsageRule_Selector u \<in> fst ` set t'"
    using lp map_of_key[OF rb(1)] by (metis set_map)
  then obtain r' where r': "map_of t' (UsageRule_Selector u) = Some r'"
    by (metis map_of_eq_None_iff not_Some_eq)
  with lp rb assms(2) have "ApiKey (Requires r') = Some
         \<lparr>AllowWithoutApiKey = AllowUnregisteredCalls u,
          ApiKeys = [APIKey_Query ''key'', APIKey_Header ''x-api-key'']\<rparr>" by fastforce
  with r' show ?thesis by blast
qed

lemma makeServiceControlFilter_Some:
  assumes "makeServiceControlFilter sc = Ok (Some f)"
  shows "\<exists>rules1 rules2 cfg.
           forEach applyHttpRule (Http_Rules sc) (seedRules sc) = Ok rules1 \<and>
           forEach applyUsageRule (Usage_Rules sc) rules1 = Ok rules2 \<and>
           HttpFilter_Name f = ServiceControl \<and>
           HttpFilter_Config f = ServiceControlStruct cfg \<and>
           FilterConfig_ServiceName cfg = Service_Name sc \<and>
           FilterConfig_Rules cfg = map snd rules2"
  using assms
  by (auto simp: makeServiceControlFilter_def Let_def split: if_splits result.splits)

lemma makeServiceControlFilter_None:
  "makeServiceControlFilter sc = Ok None \<longleftrightarrow> Service_Name sc = [] \<or> Control_Environment sc = []"
  by (auto simp: makeServiceControlFilter_def Let_def split: if_splits result.splits)

lemma makeServiceControlFilter_no_Error: "makeServiceControlFilter sc \<noteq> Error e"
  by (auto simp: makeServiceControlFilter_def Let_def http_loop_no_Error usage_loop_no_Error
           split: if_splits result.splits)

lemma makeServiceControlFilter_Panic:
  "makeServiceControlFilter sc = Panic \<longleftrightarrow>
     Service_Name sc \<noteq> [] \<and> Control_Environment sc \<noteq> [] \<and>
     ((\<exists>h\<in>set (Http_Rules sc). httpPattern (HttpRule_Pattern h) \<noteq> None \<and>
          HttpRule_Selector h \<notin> fst ` set (seedRules sc)) \<or>
      (\<exists>u\<in>set (Usage_Rules sc). UsageRule_Selector u \<notin> fst ` set (seedRules sc)))"
proof (cases "Service_Name sc = [] \<or> Control_Environment sc = []")
  case True
  then show ?thesis by (auto simp: makeServiceControlFilter_def)
next
  case False
  show ?thesis
  proof (cases "forEach applyHttpRule (Http_Rules sc) (seedRules sc)")
    case (Ok rules1)
    have keys: "fst ` set rules1 = fst ` set (seedRules sc)"
      using http_loop_Ok[OF Ok] by (metis set_map)
    have nh: "\<not> (\<exists>h\<in>set (Http_Rules sc). httpPattern (HttpRule_Pattern h) \<noteq> None \<and>
          HttpRule_Selector h \<notin> fst ` set (seedRules sc))"
      using Ok http_loop_Panic[of "Http_Rules sc" "seedRules sc"] by simp
    have "makeServiceControlFilter sc = Panic \<longleftrightarrow>
            forEach applyUsageRule (Usage_Rules sc) rules1 = Panic"
      using False Ok
      by (auto simp: makeServiceControlFilter_def Let_def split: result.splits)
    then show ?thesis using False nh keys usage_loop_Panic[of "Usage_Rules sc" rules1] by auto
  next
    case (Error e)
    then show ?thesis using http_loop_no_Error by blast
  next
    case Panic
    then have "makeServiceControlFilter sc = Panic"
      using False by (simp add: makeServiceControlFilter_def Let_def)
    then show ?thesis using False Panic http_loop_Panic[of "Http_Rules sc" "seedRules sc"] by auto
  qed
qed

lemmas eval_sc = makeServiceControlFilter_def seedRules_def seedMethod_def selector_def grpcUri_def
  applyHttpRule_def applyUsageRule_def tokenUri_def serviceControlUri_def


lemma seedRules_lookup:
  assumes "api \<in> set (Apis sc)" and "method \<in> set (Methods api)"
  shows "\<exists>r. map_of (seedRules sc) (selector api method) = Some r \<and> seeded sc (selector api method) r"
proof -
  have "selector api method \<in> fst ` set (seedRules sc)"
    using assms by (auto simp: seedRules_keys)
  then obtain r where "map_of (seedRules sc) (selector api method) = Some r"
    by (metis map_of_eq_None_iff not_Some_eq)
  then show ?thesis using seedRules_inv by blast
qed

lemma rule_filter:
  assumes "distinct (map fst al)"
    and "\<forall>k r. map_of al k = Some r \<longrightarrow> OperationName (Requires r) = k"
    and "map_of al k = Some v"
  shows "filter (\<lambda>r. OperationName (Requires r) = k) (map snd al) = [v]"
proof -
  have "filter (\<lambda>r. OperationName (Requires r) = k) (map snd al) =
        map snd (filter (\<lambda>p. OperationName (Requires (snd p)) = k) al)"
    by (simp add: filter_map comp_def)
  also have "filter (\<lambda>p. OperationName (Requires (snd p)) = k) al = filter (\<lambda>p. fst p = k) al"
  proof (rule filter_cong[OF refl])
    fix p assume "p \<in> set al"
    then have "map_of al (fst p) = Some (snd p)"
      using assms(1) map_of_eq_Some_iff[of al "fst p" "snd p"] by simp
    then show "(OperationName (Requires (snd p)) = k) = (fst p = k)" using assms(2) by auto
  qed
  also have "\<dots> = [(k, v)]" using assms(1,3) by (rule filter_key_distinct)
  finally show ?thesis by simp
qed

text \<open>What the emitted rule set is: the seeded map after the two loops.\<close>

lemma emitted_rules:
  assumes "makeServiceControlFilter sc = Ok (Some f)"
  shows "\<exists>rules1 rules2 cfg.
           forEach applyHttpRule (Http_Rules sc) (seedRules sc) = Ok rules1 \<and>
           forEach applyUsageRule (Usage_Rules sc) rules1 = Ok rules2 \<and>
           HttpFilter_Config f = ServiceControlStruct cfg \<and>
           FilterConfig_Rules cfg = map snd rules2 \<and>
           distinct (map fst rules2) \<and>
           fst ` set rules2 = fst ` set (seedRules sc) \<and>
           (\<forall>k r. map_of rules2 k = Some r \<longrightarrow>
              OperationName (Requires r) = k \<and>
              Requirement_ServiceName (Requires r) = Service_Name sc \<and>
              (\<exists>r1 r0. map_of rules1 k = Some r1 \<and> map_of (seedRules sc) k = Some r0 \<and>
                  seeded sc k r0 \<and> Rule_Pattern r = Rule_Pattern r1 \<and>
                  (Rule_Pattern r1 = Rule_Pattern r0 \<or>
                   (\<exists>h\<in>set (Http_Rules sc). HttpRule_Selector h = k \<and>
                       httpPattern (HttpRule_Pattern h) = Some (Rule_Pattern r1)))))"
proof -
  from makeServiceControlFilter_Some[OF assms] obtain rules1 rules2 cfg where
    l1: "forEach applyHttpRule (Http_Rules sc) (seedRules sc) = Ok rules1" and
    l2: "forEach applyUsageRule (Usage_Rules sc) rules1 = Ok rules2" and
    cfg: "HttpFilter_Config f = ServiceControlStruct cfg" "FilterConfig_Rules cfg = map snd rules2"
    by blast
  note h = http_loop_Ok[OF l1] and u = usage_loop_Ok[OF l2]
  have keys: "map fst rules2 = map fst (seedRules sc)" using h u by simp
  then have d: "distinct (map fst rules2)" using seedRules_inv by simp
  have ks: "fst ` set rules2 = fst ` set (seedRules sc)" using keys by (metis set_map)
  have "OperationName (Requires r) = k \<and>
        Requirement_ServiceName (Requires r) = Service_Name sc \<and>
        (\<exists>r1 r0. map_of rules1 k = Some r1 \<and> map_of (seedRules sc) k = Some r0 \<and>
            seeded sc k r0 \<and> Rule_Pattern r = Rule_Pattern r1 \<and>
            (Rule_Pattern r1 = Rule_Pattern r0 \<or>
             (\<exists>h\<in>set (Http_Rules sc). HttpRule_Selector h = k \<and>
                 httpPattern (HttpRule_Pattern h) = Some (Rule_Pattern r1))))"
    if r: "map_of rules2 k = Some r" for k r
  proof -
    from u r obtain r1 where r1: "map_of rules1 k = Some r1" "Rule_Pattern r = Rule_Pattern r1"
      "Requirement_ServiceName (Requires r) = Requirement_ServiceName (Requires r1)"
      "OperationName (Requires r) = OperationName (Requires r1)" by blast
    from h r1(1) obtain r0 where r0: "map_of (seedRules sc) k = Some r0" "Requires r1 = Requires r0"
      "Rule_Pattern r1 = Rule_Pattern r0 \<or>
         (\<exists>h\<in>set (Http_Rules sc). HttpRule_Selector h = k \<and>
             httpPattern (HttpRule_Pattern h) = Some (Rule_Pattern r1))" by blast
    have s: "seeded sc k r0" using seedRules_inv r0(1) by blast
    then have "OperationName (Requires r0) = k" "Requirement_ServiceName (Requires r0) = Service_Name sc"
      by (simp_all add: seeded_def)
    then show ?thesis using r1 r0 s by auto
  qed
  with l1 l2 cfg d ks show ?thesis by blast
qed

section \<open>The service-control rule set\<close>

lemma httpPattern_None:
  "httpPattern x = None \<longleftrightarrow> x = None \<or> (\<exists>k q. x = Some (HttpRule_Custom k q))"
  by (cases x rule: httpPattern.cases) simp_all

lemma httpPattern_verb:
  assumes "(p, verb) \<in> {(HttpRule_Get t, ''GET''), (HttpRule_Put t, ''PUT''),
              (HttpRule_Post t, ''POST''), (HttpRule_Delete t, ''DELETE''),
              (HttpRule_Patch t, ''PATCH'')}"
  shows "httpPattern (Some p) = Some \<lparr>UriTemplate = t, HttpMethod = verb\<rparr>"
  using assms by auto

text \<open>
  Claim C1, as amended. When the service name and the control environment are non-empty
  and the builder does not crash, a service-control filter is emitted, and for every method
  of every API its rule set holds exactly one rule whose operation name is
  \<open><api_name>.<method_name>\<close>. That rule carries the document's service name. Its pattern
  is the default pair (\<open>/<api_name>/<method_name>\<close>, POST) when no \<^verbatim>\<open>http.rules\<close> entry
  names the selector and every method of the document with the same selector has the same
  API name. No rule is emitted for anything but a method of the document.
\<close>

theorem service_control_rule_per_method:
  assumes "Service_Name sc \<noteq> []" and "Control_Environment sc \<noteq> []"
    and "makeServiceControlFilter sc \<noteq> Panic"
  shows "\<exists>f cfg. makeServiceControlFilter sc = Ok (Some f) \<and>
           HttpFilter_Config f = ServiceControlStruct cfg \<and>
           (\<forall>api\<in>set (Apis sc). \<forall>method\<in>set (Methods api).
              \<exists>r. filter (\<lambda>r. OperationName (Requires r) = Api_Name api @ ''.'' @ Method_Name method)
                         (FilterConfig_Rules cfg) = [r] \<and>
                  Requirement_ServiceName (Requires r) = Service_Name sc \<and>
                  ((\<forall>h\<in>set (Http_Rules sc).
                       HttpRule_Selector h \<noteq> Api_Name api @ ''.'' @ Method_Name method) \<and>
                   (\<forall>api'\<in>set (Apis sc). \<forall>method'\<in>set (Methods api').
                       Api_Name api' @ ''.'' @ Method_Name method' =
                         Api_Name api @ ''.'' @ Method_Name method \<longrightarrow>
                       Api_Name api' = Api_Name api)
                   \<longrightarrow> Rule_Pattern r =
                         \<lparr>UriTemplate = ''/'' @ Api_Name api @ ''/'' @ Method_Name method,
                          HttpMethod = ''POST''\<rparr>)) \<and>
           (\<forall>r\<in>set (FilterConfig_Rules cfg).
              \<exists>api\<in>set (Apis sc). \<exists>method\<in>set (Methods api).
                 OperationName (Requires r) = Api_Name api @ ''.'' @ Method_Name method)"
proof -
  obtain f where f: "makeServiceControlFilter sc = Ok (Some f)"
  proof (cases "makeServiceControlFilter sc")
    case (Ok x)
    with assms(1,2) makeServiceControlFilter_None[of sc] obtain f where "x = Some f"
      by (cases x) auto
    with Ok that show ?thesis by simp
  next
    case (Error e)
    then show ?thesis using makeServiceControlFilter_no_Error by blast
  next
    case Panic
    then show ?thesis using assms(3) by simp
  qed
  from emitted_rules[OF f] obtain rules1 rules2 cfg where
    l1: "forEach applyHttpRule (Http_Rules sc) (seedRules sc) = Ok rules1" and
    cfg: "HttpFilter_Config f = ServiceControlStruct cfg" "FilterConfig_Rules cfg = map snd rules2" and
    d: "distinct (map fst rules2)" and
    ks: "fst ` set rules2 = fst ` set (seedRules sc)" and
    inv: "\<forall>k r. map_of rules2 k = Some r \<longrightarrow>
              OperationName (Requires r) = k \<and>
              Requirement_ServiceName (Requires r) = Service_Name sc \<and>
              (\<exists>r1 r0. map_of rules1 k = Some r1 \<and> map_of (seedRules sc) k = Some r0 \<and>
                  seeded sc k r0 \<and> Rule_Pattern r = Rule_Pattern r1 \<and>
                  (Rule_Pattern r1 = Rule_Pattern r0 \<or>
                   (\<exists>h\<in>set (Http_Rules sc). HttpRule_Selector h = k \<and>
                       httpPattern (HttpRule_Pattern h) = Some (Rule_Pattern r1))))"
    by blast
  have per_method:
    "\<exists>r. filter (\<lambda>r. OperationName (Requires r) = Api_Name api @ ''.'' @ Method_Name mth)
                 (FilterConfig_Rules cfg) = [r] \<and>
         Requirement_ServiceName (Requires r) = Service_Name sc \<and>
         ((\<forall>h\<in>set (Http_Rules sc).
              HttpRule_Selector h \<noteq> Api_Name api @ ''.'' @ Method_Name mth) \<and>
          (\<forall>api'\<in>set (Apis sc). \<forall>method'\<in>set (Methods api').
              Api_Name api' @ ''.'' @ Method_Name method' =
                Api_Name api @ ''.'' @ Method_Name mth \<longrightarrow>
              Api_Name api' = Api_Name api)
          \<longrightarrow> Rule_Pattern r =
                \<lparr>UriTemplate = ''/'' @ Api_Name api @ ''/'' @ Method_Name mth,
                 HttpMethod = ''POST''\<rparr>)"
    if api: "api \<in> set (Apis sc)" and mth: "mth \<in> set (Methods api)" for api mth
  proof -
    let ?k = "Api_Name api @ ''.'' @ Method_Name mth"
    have k: "?k = selector api mth" by (simp add: selector_def)
    have "?k \<in> fst ` set rules2" using ks seedRules_keys[of sc] api mth k by auto
    then obtain r where r: "map_of rules2 ?k = Some r"
      by (metis map_of_eq_None_iff not_Some_eq)
    have flt: "filter (\<lambda>r. OperationName (Requires r) = ?k) (FilterConfig_Rules cfg) = [r]"
      unfolding cfg(2) using d inv r by (intro rule_filter) auto
    have nm: "Requirement_ServiceName (Requires r) = Service_Name sc" using inv r by blast
    have pat: "Rule_Pattern r = \<lparr>UriTemplate = ''/'' @ Api_Name api @ ''/'' @ Method_Name mth,
                 HttpMethod = ''POST''\<rparr>"
      if noh: "\<forall>h\<in>set (Http_Rules sc). HttpRule_Selector h \<noteq> ?k"
        and uniq: "\<forall>api'\<in>set (Apis sc). \<forall>method'\<in>set (Methods api').
              Api_Name api' @ ''.'' @ Method_Name method' = ?k \<longrightarrow> Api_Name api' = Api_Name api"
    proof -
      from inv r noh obtain r0 where r0: "seeded sc ?k r0" "Rule_Pattern r = Rule_Pattern r0"
        by fastforce
      from r0(1) obtain api' method' where am: "api' \<in> set (Apis sc)" "method' \<in> set (Methods api')"
        "?k = selector api' method'"
        "Rule_Pattern r0 = \<lparr>UriTemplate = grpcUri api' method', HttpMethod = ''POST''\<rparr>"
        unfolding seeded_def by blast
      have "Api_Name api' @ ''.'' @ Method_Name method' = ?k"
        using am(3) by (simp add: selector_def)
      with uniq am(1,2) have "Api_Name api' = Api_Name api" by blast
      moreover from this have "Method_Name method' = Method_Name mth"
        using am(3) by (simp add: selector_def)
      ultimately show ?thesis using r0(2) am(4) by (simp add: grpcUri_def)
    qed
    from flt nm pat show ?thesis by blast
  qed
  have only: "\<exists>api\<in>set (Apis sc). \<exists>method\<in>set (Methods api).
                 OperationName (Requires r) = Api_Name api @ ''.'' @ Method_Name method"
    if "r \<in> set (FilterConfig_Rules cfg)" for r
  proof -
    from that obtain k where kr: "(k, r) \<in> set rules2" unfolding cfg(2) by auto
    then have "map_of rules2 k = Some r" using d by (simp add: map_of_eq_Some_iff)
    then have "OperationName (Requires r) = k" using inv by blast
    moreover have "k \<in> fst ` set (seedRules sc)" using kr ks by force
    ultimately show ?thesis by (auto simp: seedRules_keys selector_def)
  qed
  from f cfg(1) per_method only show ?thesis by blast
qed


text \<open>The store document satisfies the hypotheses; its \<open>List\<close> method keeps the default.\<close>

theorem service_control_rule_per_method_witness:
  "Service_Name storeDoc \<noteq> [] \<and> Control_Environment storeDoc \<noteq> [] \<and>
   makeServiceControlFilter storeDoc \<noteq> Panic \<and>
   (\<exists>f cfg r. makeServiceControlFilter storeDoc = Ok (Some f) \<and>
      HttpFilter_Config f = ServiceControlStruct cfg \<and>
      filter (\<lambda>r. OperationName (Requires r) = ''pets.Store.List'') (FilterConfig_Rules cfg) = [r] \<and>
      Requirement_ServiceName (Requires r) = ''store.example.com'' \<and>
      Rule_Pattern r = \<lparr>UriTemplate = ''/pets.Store/List'', HttpMethod = ''POST''\<rparr>)"
proof -
  have h1: "Service_Name storeDoc \<noteq> []" and h2: "Control_Environment storeDoc \<noteq> []"
    by (simp_all add: storeDoc_def)
  have h3: "makeServiceControlFilter storeDoc \<noteq> Panic"
    by (simp add: storeDoc_def storeApi_def eval_sc)
  from service_control_rule_per_method[OF h1 h2 h3] obtain f cfg where
    f: "makeServiceControlFilter storeDoc = Ok (Some f)"
       "HttpFilter_Config f = ServiceControlStruct cfg" and
    every: "\<forall>api\<in>set (Apis storeDoc). \<forall>method\<in>set (Methods api).
              \<exists>r. filter (\<lambda>r. OperationName (Requires r) = Api_Name api @ ''.'' @ Method_Name method)
                         (FilterConfig_Rules cfg) = [r] \<and>
                  Requirement_ServiceName (Requires r) = Service_Name storeDoc \<and>
                  ((\<forall>h\<in>set (Http_Rules storeDoc).
                       HttpRule_Selector h \<noteq> Api_Name api @ ''.'' @ Method_Name method) \<and>
                   (\<forall>api'\<in>set (Apis storeDoc). \<forall>method'\<in>set (Methods api').
                       Api_Name api' @ ''.'' @ Method_Name method' =
                         Api_Name api @ ''.'' @ Method_Name method \<longrightarrow>
                       Api_Name api' = Api_Name api)
                   \<longrightarrow> Rule_Pattern r =
                         \<lparr>UriTemplate = ''/'' @ Api_Name api @ ''/'' @ Method_Name method,
                          HttpMethod = ''POST''\<rparr>)"
    by blast
  have a: "storeApi \<in> set (Apis storeDoc)" by (simp add: storeDoc_def)
  have m: "\<lparr>Method_Name = ''List''\<rparr> \<in> set (Methods storeApi)" by (simp add: storeApi_def)
  from every[rule_format, OF a m] obtain r where
    r: "filter (\<lambda>r. OperationName (Requires r) = Api_Name storeApi @ ''.'' @ ''List'')
          (FilterConfig_Rules cfg) = [r]"
       "Requirement_ServiceName (Requires r) = Service_Name storeDoc"
       "(\<forall>h\<in>set (Http_Rules storeDoc). HttpRule_Selector h \<noteq> Api_Name storeApi @ ''.'' @ ''List'') \<and>
        (\<forall>api'\<in>set (Apis storeDoc). \<forall>method'\<in>set (Methods api').
            Api_Name api' @ ''.'' @ Method_Name method' = Api_Name storeApi @ ''.'' @ ''List'' \<longrightarrow>
            Api_Name api' = Api_Name storeApi)
        \<longrightarrow> Rule_Pattern r = \<lparr>UriTemplate = ''/'' @ Api_Name storeApi @ ''/'' @ ''List'',
                               HttpMethod = ''POST''\<rparr>"
    by auto
  have "(\<forall>h\<in>set (Http_Rules storeDoc). HttpRule_Selector h \<noteq> Api_Name storeApi @ ''.'' @ ''List'') \<and>
        (\<forall>api'\<in>set (Apis storeDoc). \<forall>method'\<in>set (Methods api').
            Api_Name api' @ ''.'' @ Method_Name method' = Api_Name storeApi @ ''.'' @ ''List'' \<longrightarrow>
            Api_Name api' = Api_Name storeApi)"
    by (simp add: storeDoc_def storeApi_def)
  with r(3) have "Rule_Pattern r = \<lparr>UriTemplate = ''/'' @ Api_Name storeApi @ ''/'' @ ''List'',
                               HttpMethod = ''POST''\<rparr>" by blast
  then have p: "Rule_Pattern r = \<lparr>UriTemplate = ''/pets.Store/List'', HttpMethod = ''POST''\<rparr>"
    by (simp add: storeApi_def)
  have flt: "filter (\<lambda>r. OperationName (Requires r) = ''pets.Store.List'') (FilterConfig_Rules cfg) = [r]"
    using r(1) by (simp add: storeApi_def)
  have nm: "Requirement_ServiceName (Requires r) = ''store.example.com''"
    using r(2) by (simp add: storeDoc_def)
  from h1 h2 h3 f flt nm p show ?thesis by blast
qed

text \<open>
  Claim C1 as stated fails: the selector is the key of the rule map, and the methods
  \<open>c\<close> of API \<open>a.b\<close> and \<open>b.c\<close> of API \<open>a\<close> share the selector \<open>a.b.c\<close>. The second
  assignment replaces the first, so the one rule for the method \<open>c\<close> of \<open>a.b\<close> has the
  template \<open>/a/b.c\<close> and not the default \<open>/a.b/c\<close>.
\<close>

theorem colliding_selectors_counterexample:
  "Apis collidingDoc =
     [\<lparr>Api_Name = ''a.b'', Methods = [\<lparr>Method_Name = ''c''\<rparr>], Api_SourceContext = None\<rparr>,
      \<lparr>Api_Name = ''a'', Methods = [\<lparr>Method_Name = ''b.c''\<rparr>], Api_SourceContext = None\<rparr>] \<and>
   Http_Rules collidingDoc = [] \<and>
   makeServiceControlFilter collidingDoc =
     Ok (Some \<lparr>HttpFilter_Name = ServiceControl,
               HttpFilter_Config = ServiceControlStruct
                 \<lparr>Services =
                    [\<lparr>scService_ServiceName = ''svc'',
                      TokenUri = \<lparr>Uri = tokenUri, HttpUri_Cluster = ''gcp_metadata_cluster'',
                                  Timeout_Seconds = 5\<rparr>,
                      scService_ServiceControlUri =
                        \<lparr>Uri = serviceControlUri, HttpUri_Cluster = ''service_control_cluster'',
                         Timeout_Seconds = 5\<rparr>\<rparr>],
                  FilterConfig_ServiceName = ''svc'',
                  FilterConfig_ServiceControlUri =
                    \<lparr>Uri = serviceControlUri, HttpUri_Cluster = ''service_control_cluster'',
                     Timeout_Seconds = 5\<rparr>,
                  FilterConfig_Rules =
                    [\<lparr>Requires = \<lparr>Requirement_ServiceName = ''svc'', OperationName = ''a.b.c'',
                                   ApiKey = None\<rparr>,
                      Rule_Pattern = \<lparr>UriTemplate = ''/a/b.c'', HttpMethod = ''POST''\<rparr>\<rparr>]\<rparr>\<rparr>)"
  by (simp add: collidingDoc_def makeServiceControlFilter_def seedRules_def seedMethod_def
        selector_def grpcUri_def)

lemma takeWhile_stop: "\<forall>x\<in>set xs. P x \<Longrightarrow> \<not> P y \<Longrightarrow> takeWhile P (xs @ y # ys) = xs"
  by (induction xs) auto

text \<open>
  Method names are protobuf identifiers and contain no dot. For such names the selector
  determines the API name and the method name, so the side condition of claim C1 on methods
  with the same selector holds.
\<close>

lemma selector_determines_names:
  assumes "CHR ''.'' \<notin> set m" and "CHR ''.'' \<notin> set m'"
    and "a @ ''.'' @ m = a' @ ''.'' @ m'"
  shows "a = a' \<and> m = m'"
proof -
  have "rev (a @ ''.'' @ m) = rev (a' @ ''.'' @ m')" using assms(3) by simp
  then have eq: "rev m @ CHR ''.'' # rev a = rev m' @ CHR ''.'' # rev a'" by simp
  have "takeWhile (\<lambda>c. c \<noteq> CHR ''.'') (rev m @ CHR ''.'' # rev a) = rev m"
    using assms(1) by (intro takeWhile_stop) auto
  moreover have "takeWhile (\<lambda>c. c \<noteq> CHR ''.'') (rev m' @ CHR ''.'' # rev a') = rev m'"
    using assms(2) by (intro takeWhile_stop) auto
  ultimately have "rev m = rev m'" using eq by simp
  then have "m = m'" by simp
  with assms(3) show ?thesis by simp
qed

lemma emitted_rules_short:
  assumes "makeServiceControlFilter sc = Ok (Some f)"
  shows "\<exists>rules1 rules2 cfg.
           forEach applyHttpRule (Http_Rules sc) (seedRules sc) = Ok rules1 \<and>
           forEach applyUsageRule (Usage_Rules sc) rules1 = Ok rules2 \<and>
           HttpFilter_Config f = ServiceControlStruct cfg \<and>
           FilterConfig_Rules cfg = map snd rules2 \<and>
           distinct (map fst rules2) \<and>
           fst ` set rules2 = fst ` set (seedRules sc) \<and>
           (\<forall>k r. map_of rules2 k = Some r \<longrightarrow> OperationName (Requires r) = k) \<and>
           (\<forall>k r. map_of rules2 k = Some r \<longrightarrow>
              (\<exists>r1. map_of rules1 k = Some r1 \<and> Rule_Pattern r = Rule_Pattern r1))"
proof -
  from emitted_rules[OF assms] obtain rules1 rules2 cfg where
    l1: "forEach applyHttpRule (Http_Rules sc) (seedRules sc) = Ok rules1" and
    l2: "forEach applyUsageRule (Usage_Rules sc) rules1 = Ok rules2" and
    cfg: "HttpFilter_Config f = ServiceControlStruct cfg" "FilterConfig_Rules cfg = map snd rules2" and
    d: "distinct (map fst rules2)" and
    ks: "fst ` set rules2 = fst ` set (seedRules sc)" and
    inv: "\<forall>k r. map_of rules2 k = Some r \<longrightarrow>
              OperationName (Requires r) = k \<and>
              Requirement_ServiceName (Requires r) = Service_Name sc \<and>
              (\<exists>r1 r0. map_of rules1 k = Some r1 \<and> map_of (seedRules sc) k = Some r0 \<and>
                  seeded sc k r0 \<and> Rule_Pattern r = Rule_Pattern r1 \<and>
                  (Rule_Pattern r1 = Rule_Pattern r0 \<or>
                   (\<exists>h\<in>set (Http_Rules sc). HttpRule_Selector h = k \<and>
                       httpPattern (HttpRule_Pattern h) = Some (Rule_Pattern r1))))"
    by blast
  have i1: "\<forall>k r. map_of rules2 k = Some r \<longrightarrow> OperationName (Requires r) = k"
    using inv by simp
  have i2: "\<forall>k r. map_of rules2 k = Some r \<longrightarrow>
              (\<exists>r1. map_of rules1 k = Some r1 \<and> Rule_Pattern r = Rule_Pattern r1)"
  proof (intro allI impI)
    fix k r assume "map_of rules2 k = Some r"
    with inv obtain r1 where "map_of rules1 k = Some r1" "Rule_Pattern r = Rule_Pattern r1"
      by blast
    then show "\<exists>r1. map_of rules1 k = Some r1 \<and> Rule_Pattern r = Rule_Pattern r1" by blast
  qed
  from l1 l2 cfg d ks i1 i2 show ?thesis by blast
qed

text \<open>
  Claim C5, as amended. In an emitted service-control filter, every \<^verbatim>\<open>usage.rules\<close> entry
  has exactly one rule with its selector as operation name; that rule carries an API-key
  requirement whose key sources are the query parameter \<open>key\<close> followed by the header
  \<open>x-api-key\<close>; and its \<open>allow_without_api_key\<close> equals the entry's
  \<open>allow_unregistered_calls\<close> when no later \<^verbatim>\<open>usage.rules\<close> entry has the same selector.
\<close>

theorem usage_rule_api_key:
  assumes "makeServiceControlFilter sc = Ok (Some f)"
    and "Usage_Rules sc = pre @ u # post"
  shows "\<exists>cfg r ak. HttpFilter_Config f = ServiceControlStruct cfg \<and>
           filter (\<lambda>r. OperationName (Requires r) = UsageRule_Selector u) (FilterConfig_Rules cfg) = [r] \<and>
           ApiKey (Requires r) = Some ak \<and>
           ApiKeys ak = [APIKey_Query ''key'', APIKey_Header ''x-api-key''] \<and>
           ((\<forall>u'\<in>set post. UsageRule_Selector u' \<noteq> UsageRule_Selector u) \<longrightarrow>
              AllowWithoutApiKey ak = AllowUnregisteredCalls u)"
proof -
  from emitted_rules_short[OF assms(1)] obtain rules1 rules2 cfg where
    l2: "forEach applyUsageRule (Usage_Rules sc) rules1 = Ok rules2" and
    cfg: "HttpFilter_Config f = ServiceControlStruct cfg" "FilterConfig_Rules cfg = map snd rules2" and
    d: "distinct (map fst rules2)" and
    inv: "\<forall>k r. map_of rules2 k = Some r \<longrightarrow> OperationName (Requires r) = k"
    by blast
  let ?k = "UsageRule_Selector u"
  let ?P = "\<lambda>x. UsageRule_Selector x = ?k"
  have "\<exists>x\<in>set (Usage_Rules sc). ?P x" using assms(2) by auto
  from split_list_last_prop[OF this] obtain ys x zs where
    sp: "Usage_Rules sc = ys @ x # zs" "?P x" "\<forall>z\<in>set zs. \<not> ?P z" by blast
  have "\<forall>u'\<in>set zs. UsageRule_Selector u' \<noteq> UsageRule_Selector x" using sp(2,3) by simp
  from usage_loop_last[OF l2[unfolded sp(1)] this] sp(2) obtain r where
    r: "map_of rules2 ?k = Some r"
       "ApiKey (Requires r) = Some \<lparr>AllowWithoutApiKey = AllowUnregisteredCalls x,
                ApiKeys = [APIKey_Query ''key'', APIKey_Header ''x-api-key'']\<rparr>"
    by auto
  have flt: "filter (\<lambda>r. OperationName (Requires r) = ?k) (FilterConfig_Rules cfg) = [r]"
    unfolding cfg(2) using d inv r(1) by (rule rule_filter)
  have last: "AllowUnregisteredCalls x = AllowUnregisteredCalls u"
    if nl: "\<forall>u'\<in>set post. UsageRule_Selector u' \<noteq> ?k"
  proof -
    from usage_loop_last[OF l2[unfolded assms(2)] nl] r(1,2) show ?thesis by auto
  qed
  from cfg(1) flt r(2) last show ?thesis by auto
qed

text \<open>The store document: its one usage rule allows unregistered calls.\<close>

theorem usage_rule_api_key_witness:
  "Usage_Rules storeDoc =
     [] @ \<lparr>UsageRule_Selector = ''pets.Store.List'', AllowUnregisteredCalls = True\<rparr> # [] \<and>
   (\<exists>f cfg r ak. makeServiceControlFilter storeDoc = Ok (Some f) \<and>
      HttpFilter_Config f = ServiceControlStruct cfg \<and>
      filter (\<lambda>r. OperationName (Requires r) = ''pets.Store.List'') (FilterConfig_Rules cfg) = [r] \<and>
      ApiKey (Requires r) = Some ak \<and>
      ApiKeys ak = [APIKey_Query ''key'', APIKey_Header ''x-api-key''] \<and>
      AllowWithoutApiKey ak = True)"
proof -
  have "\<exists>f. makeServiceControlFilter storeDoc = Ok (Some f)"
    by (simp add: storeDoc_def storeApi_def eval_sc)
  then obtain f where f: "makeServiceControlFilter storeDoc = Ok (Some f)" ..
  have us: "Usage_Rules storeDoc =
     [] @ \<lparr>UsageRule_Selector = ''pets.Store.List'', AllowUnregisteredCalls = True\<rparr> # []"
    by (simp add: storeDoc_def)
  from usage_rule_api_key[OF f us] f us show ?thesis by auto
qed

text \<open>
  Claim C5 as stated fails when two usage rules name the same method: the second
  assignment replaces the first. The first entry allows unregistered calls, the emitted
  rule does not.
\<close>

theorem repeated_usage_rule_counterexample:
  "Usage_Rules repeatedUsageDoc =
     [\<lparr>UsageRule_Selector = ''a.m'', AllowUnregisteredCalls = True\<rparr>,
      \<lparr>UsageRule_Selector = ''a.m'', AllowUnregisteredCalls = False\<rparr>] \<and>
   makeServiceControlFilter repeatedUsageDoc =
     Ok (Some \<lparr>HttpFilter_Name = ServiceControl,
               HttpFilter_Config = ServiceControlStruct
                 \<lparr>Services =
                    [\<lparr>scService_ServiceName = ''svc'',
                      TokenUri = \<lparr>Uri = tokenUri, HttpUri_Cluster = ''gcp_metadata_cluster'',
                                  Timeout_Seconds = 5\<rparr>,
                      scService_ServiceControlUri =
                        \<lparr>Uri = serviceControlUri, HttpUri_Cluster = ''service_control_cluster'',
                         Timeout_Seconds = 5\<rparr>\<rparr>],
                  FilterConfig_ServiceName = ''svc'',
                  FilterConfig_ServiceControlUri =
                    \<lparr>Uri = serviceControlUri, HttpUri_Cluster = ''service_control_cluster'',
                     Timeout_Seconds = 5\<rparr>,
                  FilterConfig_Rules =
                    [\<lparr>Requires = \<lparr>Requirement_ServiceName = ''svc'', OperationName = ''a.m'',
                                   ApiKey = Some \<lparr>AllowWithoutApiKey = False,
                                     ApiKeys = [APIKey_Query ''key'', APIKey_Header ''x-api-key'']\<rparr>\<rparr>,
                      Rule_Pattern = \<lparr>UriTemplate = ''/a/m'', HttpMethod = ''POST''\<rparr>\<rparr>]\<rparr>\<rparr>)"
  by (simp add: repeatedUsageDoc_def makeServiceControlFilter_def seedRules_def seedMethod_def
        selector_def grpcUri_def applyUsageRule_def)

text \<open>
  Claim C6, as amended. In an emitted service-control filter, an \<^verbatim>\<open>http.rules\<close> entry whose
  pattern is one of the GET, PUT, POST, DELETE and PATCH variants, and after which no entry
  with the same selector has one of these variants, has exactly one rule with its selector
  as operation name, and the pattern of that rule is the entry's verb with its URI template,
  unchanged.
\<close>

theorem http_binding_replaces_pattern:
  assumes "makeServiceControlFilter sc = Ok (Some f)"
    and "Http_Rules sc = pre @ h # post"
    and "HttpRule_Pattern h = Some p"
    and "(p, verb) \<in> {(HttpRule_Get t, ''GET''), (HttpRule_Put t, ''PUT''),
              (HttpRule_Post t, ''POST''), (HttpRule_Delete t, ''DELETE''),
              (HttpRule_Patch t, ''PATCH'')}"
    and "\<forall>h'\<in>set post. HttpRule_Selector h' = HttpRule_Selector h \<longrightarrow>
            HttpRule_Pattern h' = None \<or> (\<exists>k q. HttpRule_Pattern h' = Some (HttpRule_Custom k q))"
  shows "\<exists>cfg r. HttpFilter_Config f = ServiceControlStruct cfg \<and>
           filter (\<lambda>r. OperationName (Requires r) = HttpRule_Selector h) (FilterConfig_Rules cfg) = [r] \<and>
           Rule_Pattern r = \<lparr>UriTemplate = t, HttpMethod = verb\<rparr>"
proof -
  from emitted_rules_short[OF assms(1)] obtain rules1 rules2 cfg where
    l1: "forEach applyHttpRule (Http_Rules sc) (seedRules sc) = Ok rules1" and
    cfg: "HttpFilter_Config f = ServiceControlStruct cfg" "FilterConfig_Rules cfg = map snd rules2" and
    d: "distinct (map fst rules2)" and
    ks: "fst ` set rules2 = fst ` set (seedRules sc)" and
    inv: "\<forall>k r. map_of rules2 k = Some r \<longrightarrow> OperationName (Requires r) = k" and
    inv2: "\<forall>k r. map_of rules2 k = Some r \<longrightarrow>
              (\<exists>r1. map_of rules1 k = Some r1 \<and> Rule_Pattern r = Rule_Pattern r1)"
    by blast
  let ?k = "HttpRule_Selector h"
  have hp: "httpPattern (HttpRule_Pattern h) = Some \<lparr>UriTemplate = t, HttpMethod = verb\<rparr>"
    using assms(3) httpPattern_verb[OF assms(4)] by simp
  have later: "\<forall>h'\<in>set post. HttpRule_Selector h' = ?k \<longrightarrow> httpPattern (HttpRule_Pattern h') = None"
    using assms(5) by (simp add: httpPattern_None)
  from http_loop_last[OF l1[unfolded assms(2)] hp later] obtain r1 where
    r1: "map_of rules1 ?k = Some r1" "Rule_Pattern r1 = \<lparr>UriTemplate = t, HttpMethod = verb\<rparr>"
    by blast
  have "?k \<in> fst ` set rules2"
    using ks http_loop_Ok[OF l1] map_of_key[OF r1(1)] by (metis set_map)
  then obtain r where r: "map_of rules2 ?k = Some r"
    by (metis map_of_eq_None_iff not_Some_eq)
  have flt: "filter (\<lambda>r. OperationName (Requires r) = ?k) (FilterConfig_Rules cfg) = [r]"
    unfolding cfg(2) using d inv r by (rule rule_filter)
  have "Rule_Pattern r = \<lparr>UriTemplate = t, HttpMethod = verb\<rparr>" using inv2 r r1 by fastforce
  with cfg(1) flt show ?thesis by blast
qed

text \<open>The store document binds \<open>Get\<close> to \<open>GET /pets/{id}\<close>.\<close>

theorem http_binding_replaces_pattern_witness:
  "Http_Rules storeDoc =
     [] @ \<lparr>HttpRule_Selector = ''pets.Store.Get'',
            HttpRule_Pattern = Some (HttpRule_Get ''/pets/{id}'')\<rparr> # [] \<and>
   (\<exists>f cfg r. makeServiceControlFilter storeDoc = Ok (Some f) \<and>
      HttpFilter_Config f = ServiceControlStruct cfg \<and>
      filter (\<lambda>r. OperationName (Requires r) = ''pets.Store.Get'') (FilterConfig_Rules cfg) = [r] \<and>
      Rule_Pattern r = \<lparr>UriTemplate = ''/pets/{id}'', HttpMethod = ''GET''\<rparr>)"
proof -
  have "\<exists>f. makeServiceControlFilter storeDoc = Ok (Some f)"
    by (simp add: storeDoc_def storeApi_def eval_sc)
  then obtain f where f: "makeServiceControlFilter storeDoc = Ok (Some f)" ..
  let ?h = "\<lparr>HttpRule_Selector = ''pets.Store.Get'',
            HttpRule_Pattern = Some (HttpRule_Get ''/pets/{id}'')\<rparr>"
  have hs: "Http_Rules storeDoc = [] @ ?h # []" by (simp add: storeDoc_def)
  have p: "HttpRule_Pattern ?h = Some (HttpRule_Get ''/pets/{id}'')" by simp
  have v: "(HttpRule_Get ''/pets/{id}'', ''GET'') \<in>
             {(HttpRule_Get ''/pets/{id}'', ''GET''), (HttpRule_Put ''/pets/{id}'', ''PUT''),
              (HttpRule_Post ''/pets/{id}'', ''POST''), (HttpRule_Delete ''/pets/{id}'', ''DELETE''),
              (HttpRule_Patch ''/pets/{id}'', ''PATCH'')}" by simp
  have l: "\<forall>h'\<in>set []. HttpRule_Selector h' = HttpRule_Selector ?h \<longrightarrow>
            HttpRule_Pattern h' = None \<or> (\<exists>k q. HttpRule_Pattern h' = Some (HttpRule_Custom k q))"
    by simp
  from http_binding_replaces_pattern[OF f hs p v l] f hs show ?thesis by auto
qed

text \<open>
  Claim C6 as stated fails when two bindings name the same method: the rule keeps the
  pattern of the later one, here \<open>POST /y\<close> and not the first entry's \<open>GET /x\<close>.
\<close>

theorem repeated_http_rule_counterexample:
  "Http_Rules repeatedHttpDoc =
     [\<lparr>HttpRule_Selector = ''a.m'', HttpRule_Pattern = Some (HttpRule_Get ''/x'')\<rparr>,
      \<lparr>HttpRule_Selector = ''a.m'', HttpRule_Pattern = Some (HttpRule_Post ''/y'')\<rparr>] \<and>
   makeServiceControlFilter repeatedHttpDoc =
     Ok (Some \<lparr>HttpFilter_Name = ServiceControl,
               HttpFilter_Config = ServiceControlStruct
                 \<lparr>Services =
                    [\<lparr>scService_ServiceName = ''svc'',
                      TokenUri = \<lparr>Uri = tokenUri, HttpUri_Cluster = ''gcp_metadata_cluster'',
                                  Timeout_Seconds = 5\<rparr>,
                      scService_ServiceControlUri =
                        \<lparr>Uri = serviceControlUri, HttpUri_Cluster = ''service_control_cluster'',
                         Timeout_Seconds = 5\<rparr>\<rparr>],
                  FilterConfig_ServiceName = ''svc'',
                  FilterConfig_ServiceControlUri =
                    \<lparr>Uri = serviceControlUri, HttpUri_Cluster = ''service_control_cluster'',
                     Timeout_Seconds = 5\<rparr>,
                  FilterConfig_Rules =
                    [\<lparr>Requires = \<lparr>Requirement_ServiceName = ''svc'', OperationName = ''a.m'',
                                   ApiKey = None\<rparr>,
                      Rule_Pattern = \<lparr>UriTemplate = ''/y'', HttpMethod = ''POST''\<rparr>\<rparr>]\<rparr>\<rparr>)"
  by (simp add: repeatedHttpDoc_def makeServiceControlFilter_def seedRules_def seedMethod_def
        selector_def grpcUri_def applyHttpRule_def)

text \<open>
  Claim C9, as amended. The builder panics exactly when the service name and the control
  environment are non-empty and either some \<^verbatim>\<open>http.rules\<close> entry with one of the GET, PUT,
  POST, DELETE and PATCH variants, or some \<^verbatim>\<open>usage.rules\<close> entry, has a selector that is
  \<open><api_name>.<method_name>\<close> for no method of the document. It never returns an error.
\<close>

theorem unmatched_selector_panics:
  "(makeServiceControlFilter sc = Panic \<longleftrightarrow>
      Service_Name sc \<noteq> [] \<and> Control_Environment sc \<noteq> [] \<and>
      ((\<exists>h\<in>set (Http_Rules sc).
           (\<exists>t. HttpRule_Pattern h \<in> {Some (HttpRule_Get t), Some (HttpRule_Put t),
                  Some (HttpRule_Post t), Some (HttpRule_Delete t), Some (HttpRule_Patch t)}) \<and>
           \<not> (\<exists>api\<in>set (Apis sc). \<exists>method\<in>set (Methods api).
                  HttpRule_Selector h = Api_Name api @ ''.'' @ Method_Name method)) \<or>
       (\<exists>u\<in>set (Usage_Rules sc).
           \<not> (\<exists>api\<in>set (Apis sc). \<exists>method\<in>set (Methods api).
                  UsageRule_Selector u = Api_Name api @ ''.'' @ Method_Name method)))) \<and>
   (\<forall>e. makeServiceControlFilter sc \<noteq> Error e)"
proof -
  have verb: "httpPattern x \<noteq> None \<longleftrightarrow>
        (\<exists>t. x \<in> {Some (HttpRule_Get t), Some (HttpRule_Put t),
                  Some (HttpRule_Post t), Some (HttpRule_Delete t), Some (HttpRule_Patch t)})" for x
    by (cases x rule: httpPattern.cases) auto
  have keys: "k \<notin> fst ` set (seedRules sc) \<longleftrightarrow>
        \<not> (\<exists>api\<in>set (Apis sc). \<exists>method\<in>set (Methods api).
                  k = Api_Name api @ ''.'' @ Method_Name method)" for k
    by (auto simp: seedRules_keys selector_def)
  show ?thesis
    unfolding makeServiceControlFilter_Panic verb keys
    using makeServiceControlFilter_no_Error by blast
qed

text \<open>A usage rule for the unknown method \<open>a.zz\<close> crashes the builder.\<close>

theorem unmatched_selector_panics_witness:
  "Usage_Rules unmatchedUsageDoc =
     [\<lparr>UsageRule_Selector = ''a.zz'', AllowUnregisteredCalls = True\<rparr>] \<and>
   makeServiceControlFilter unmatchedUsageDoc = Panic"
proof -
  have us: "Usage_Rules unmatchedUsageDoc =
     [\<lparr>UsageRule_Selector = ''a.zz'', AllowUnregisteredCalls = True\<rparr>]"
    by (simp add: unmatchedUsageDoc_def unnamedDoc_def)
  have "Service_Name unmatchedUsageDoc \<noteq> [] \<and> Control_Environment unmatchedUsageDoc \<noteq> [] \<and>
      ((\<exists>h\<in>set (Http_Rules unmatchedUsageDoc).
           (\<exists>t. HttpRule_Pattern h \<in> {Some (HttpRule_Get t), Some (HttpRule_Put t),
                  Some (HttpRule_Post t), Some (HttpRule_Delete t), Some (HttpRule_Patch t)}) \<and>
           \<not> (\<exists>api\<in>set (Apis unmatchedUsageDoc). \<exists>method\<in>set (Methods api).
                  HttpRule_Selector h = Api_Name api @ ''.'' @ Method_Name method)) \<or>
       (\<exists>u\<in>set (Usage_Rules unmatchedUsageDoc).
           \<not> (\<exists>api\<in>set (Apis unmatchedUsageDoc). \<exists>method\<in>set (Methods api).
                  UsageRule_Selector u = Api_Name api @ ''.'' @ Method_Name method)))"
    by (simp add: unmatchedUsageDoc_def unnamedDoc_def)
  with unmatched_selector_panics[of unmatchedUsageDoc] us show ?thesis by blast
qed

text \<open>
  Claim C9 as stated fails twice. An \<^verbatim>\<open>http.rules\<close> entry with an unknown selector and a
  custom pattern matches no case of the type switch, so the nil rule is never dereferenced
  and the filter is emitted. And with an empty service name the builder returns nil before
  it reads any rule.
\<close>

theorem unmatched_selector_counterexample:
  "Apis customHttpDoc =
     [\<lparr>Api_Name = ''a'', Methods = [\<lparr>Method_Name = ''m''\<rparr>], Api_SourceContext = None\<rparr>] \<and>
   Http_Rules customHttpDoc =
     [\<lparr>HttpRule_Selector = ''a.zz'', HttpRule_Pattern = Some (HttpRule_Custom ''HEAD'' ''/x'')\<rparr>] \<and>
   makeServiceControlFilter customHttpDoc =
     Ok (Some \<lparr>HttpFilter_Name = ServiceControl,
               HttpFilter_Config = ServiceControlStruct
                 \<lparr>Services =
                    [\<lparr>scService_ServiceName = ''svc'',
                      TokenUri = \<lparr>Uri = tokenUri, HttpUri_Cluster = ''gcp_metadata_cluster'',
                                  Timeout_Seconds = 5\<rparr>,
                      scService_ServiceControlUri =
                        \<lparr>Uri = serviceControlUri, HttpUri_Cluster = ''service_control_cluster'',
                         Timeout_Seconds = 5\<rparr>\<rparr>],
                  FilterConfig_ServiceName = ''svc'',
                  FilterConfig_ServiceControlUri =
                    \<lparr>Uri = serviceControlUri, HttpUri_Cluster = ''service_control_cluster'',
                     Timeout_Seconds = 5\<rparr>,
                  FilterConfig_Rules =
                    [\<lparr>Requires = \<lparr>Requirement_ServiceName = ''svc'', OperationName = ''a.m'',
                                   ApiKey = None\<rparr>,
                      Rule_Pattern = \<lparr>UriTemplate = ''/a/m'', HttpMethod = ''POST''\<rparr>\<rparr>]\<rparr>\<rparr>) \<and>
   Apis unnamedDoc =
     [\<lparr>Api_Name = ''a'', Methods = [\<lparr>Method_Name = ''m''\<rparr>], Api_SourceContext = None\<rparr>] \<and>
   Usage_Rules unnamedDoc = [\<lparr>UsageRule_Selector = ''a.zz'', AllowUnregisteredCalls = True\<rparr>] \<and>
   makeServiceControlFilter unnamedDoc = Ok None"
  by (simp add: customHttpDoc_def unnamedDoc_def makeServiceControlFilter_def seedRules_def
        seedMethod_def selector_def grpcUri_def applyHttpRule_def)

section \<open>The JWT-authn filter\<close>

lemma Split_not_Nil: "Split s sep \<noteq> []"
  by (induction s) (auto split: list.splits)

lemma Split_single: "length (Split s sep) = 1 \<longleftrightarrow> sep \<notin> set s"
proof (induction s)
  case Nil
  then show ?case by simp
next
  case (Cons c cs)
  then show ?case using Split_not_Nil[of cs sep]
    by (cases "Split cs sep") auto
qed

lemma takeWhile_snoc_all:
  "\<forall>x\<in>set xs. P x \<Longrightarrow> takeWhile P (xs @ [y]) = (if P y then xs @ [y] else xs)"
  by (induction xs) auto

lemma last_Split: "last (Split s sep) = rev (takeWhile (\<lambda>c. c \<noteq> sep) (rev s))"
proof (induction s)
  case Nil
  then show ?case by simp
next
  case (Cons c cs)
  obtain w ws where sp: "Split cs sep = w # ws"
    using Split_not_Nil[of cs sep] by (cases "Split cs sep") auto
  show ?case
  proof (cases "sep \<in> set cs")
    case True
    then have "ws \<noteq> []" using Split_single[of cs sep] sp by auto
    then have "last (Split (c # cs) sep) = last (Split cs sep)"
      using sp by auto
    moreover have "takeWhile (\<lambda>c. c \<noteq> sep) (rev cs @ [c]) = takeWhile (\<lambda>c. c \<noteq> sep) (rev cs)"
      using True by (simp add: takeWhile_append1)
    ultimately show ?thesis using Cons.IH by simp
  next
    case False
    then have ws: "ws = []" using Split_single[of cs sep] sp by auto
    have all: "\<forall>x\<in>set (rev cs). x \<noteq> sep" using False by auto
    have tw: "takeWhile (\<lambda>c. c \<noteq> sep) (rev cs) = rev cs"
      using all by (simp only: takeWhile_eq_all_conv)
    have "last (Split cs sep) = cs" using Cons.IH by (simp only: tw rev_rev_ident)
    then have w: "w = cs" using sp ws by simp
    have snoc: "takeWhile (\<lambda>c. c \<noteq> sep) (rev cs @ [c]) = (if c \<noteq> sep then rev cs @ [c] else rev cs)"
      using all by (rule takeWhile_snoc_all)
    show ?thesis using sp ws w snoc by simp
  qed
qed


lemma addRequire_loop:
  "n \<noteq> 1 \<Longrightarrow>
   forEach (addRequire n) rs (RequiresAny acc) = Ok (RequiresAny (acc @ map makeRequire rs))"
  by (induction rs arbitrary: acc) (simp_all add: addRequire_def)

lemma makeRequires_one: "Requirements rule = [r] \<Longrightarrow> makeRequires rule = Ok (makeRequire r)"
  by (simp add: makeRequires_def addRequire_def)

lemma makeRequires_many:
  "length (Requirements rule) \<noteq> 1 \<Longrightarrow>
   makeRequires rule = Ok (RequiresAny (map makeRequire (Requirements rule)))"
  using addRequire_loop[of "length (Requirements rule)" "Requirements rule" "[]"]
  by (simp add: makeRequires_def)

lemma makeRequires_eq:
  "makeRequires rule =
     Ok (case Requirements rule of [r] \<Rightarrow> makeRequire r | rs \<Rightarrow> RequiresAny (map makeRequire rs))"
proof (cases "length (Requirements rule) = 1")
  case True
  then obtain r where "Requirements rule = [r]"
    by (cases "Requirements rule") auto
  then show ?thesis by (simp add: makeRequires_one)
next
  case False
  then show ?thesis
    by (auto simp: makeRequires_many split: list.splits)
qed

lemma makeJwtRules_eq:
  "makeJwtRules endpointApi rules acc =
     Ok (acc @ map (jwtRuleOf endpointApi) (takeWhile (\<lambda>r. Requirements r \<noteq> []) rules))"
  by (induction rules arbitrary: acc) (simp_all add: makeRequires_eq jwtRuleOf_def Let_def)

text \<open>
  The fetches of a loop over \<open>ps\<close> that starts at request number \<open>n\<close> all return a key set.
\<close>

lemma collectProviders_no_Error: "collectProviders w n ps acc \<noteq> Error e"
  by (induction ps arbitrary: n acc) (auto split: result.splits)




lemma makeJwtAuthnFilter_eq:
  "makeJwtAuthnFilter w n (Some sc) endpointApi =
     (case collectProviders w n (Authentication_Providers (Service_Authentication sc)) [] of
        Panic \<Rightarrow> Panic
      | Error e \<Rightarrow> Error e
      | Ok providers \<Rightarrow>
          if providers = [] then Ok None
          else Ok (Some \<lparr>HttpFilter_Name = JwtAuthn,
                         HttpFilter_Config = JwtAuthnStruct
                           \<lparr>JwtAuthentication_Providers = providers,
                            JwtAuthentication_Rules =
                              map (jwtRuleOf endpointApi)
                                (takeWhile (\<lambda>r. Requirements r \<noteq> [])
                                   (Authentication_Rules (Service_Authentication sc)))\<rparr>\<rparr>))"
  by (auto simp: makeJwtAuthnFilter_def Let_def makeJwtRules_eq split: result.splits)





text \<open>
  Every provider list splits into the providers whose fetch returns a key set and the
  rest, which is empty or starts with a provider whose fetch returns an error or panics.
\<close>

lemma providers_split:
  "\<exists>good rest. ps = good @ rest \<and>
     (\<forall>i<length good. \<exists>jwk. fetchJwk w (n + i) (JwksUri (good ! i)) = Ok jwk) \<and>
     (rest = [] \<or> (\<exists>e. fetchJwk w (n + length good) (JwksUri (hd rest)) = Error e) \<or>
      fetchJwk w (n + length good) (JwksUri (hd rest)) = Panic)"
proof (induction ps arbitrary: n)
  case Nil
  show ?case by (rule exI[of _ "[]"], rule exI[of _ "[]"]) simp
next
  case (Cons p ps)
  show ?case
  proof (cases "fetchJwk w n (JwksUri p)")
    case (Ok jwk)
    from Cons.IH[of "Suc n"] obtain good rest where
      sp: "ps = good @ rest" and
      ok: "\<forall>i<length good. \<exists>jwk. fetchJwk w (Suc n + i) (JwksUri (good ! i)) = Ok jwk" and
      st: "rest = [] \<or> (\<exists>e. fetchJwk w (Suc n + length good) (JwksUri (hd rest)) = Error e) \<or>
           fetchJwk w (Suc n + length good) (JwksUri (hd rest)) = Panic"
      by (elim exE conjE)
    have ok': "\<forall>i<length (p # good). \<exists>jwk. fetchJwk w (n + i) (JwksUri ((p # good) ! i)) = Ok jwk"
    proof (intro allI impI)
      fix i assume i: "i < length (p # good)"
      show "\<exists>jwk. fetchJwk w (n + i) (JwksUri ((p # good) ! i)) = Ok jwk"
      proof (cases i)
        case 0
        then show ?thesis using Ok by simp
      next
        case (Suc j)
        then have "j < length good" using i by simp
        with ok Suc show ?thesis by simp
      qed
    qed
    have sp': "p # ps = (p # good) @ rest" using sp by simp
    have st': "rest = [] \<or>
        (\<exists>e. fetchJwk w (n + length (p # good)) (JwksUri (hd rest)) = Error e) \<or>
        fetchJwk w (n + length (p # good)) (JwksUri (hd rest)) = Panic"
      using st by simp
    show ?thesis
      by (rule exI[of _ "p # good"], rule exI[of _ rest]) (intro conjI sp' ok' st')
  next
    case (Error e)
    show ?thesis
      by (rule exI[of _ "[]"], rule exI[of _ "p # ps"]) (simp add: Error)
  next
    case Panic
    show ?thesis
      by (rule exI[of _ "[]"], rule exI[of _ "p # ps"]) (simp add: Panic)
  qed
qed



text \<open>
  Claim C4 fails on the code. The loop over the authentication rules leaves at a rule without
  requirements (\<^verbatim>\<open>break\<close>) where skipping it needs \<^verbatim>\<open>continue\<close>: the rule for \<open>List\<close>, which
  follows the empty rule for \<open>Get\<close> and has one requirement, emits nothing.
\<close>

theorem empty_requirements_end_the_rule_loop:
  "Authentication_Rules (Service_Authentication emptyRuleDoc) =
     [\<lparr>AuthenticationRule_Selector = ''pets.Store.Get'', Requirements = []\<rparr>,
      \<lparr>AuthenticationRule_Selector = ''pets.Store.List'',
        Requirements = [\<lparr>ProviderId = ''google'', AuthRequirement_Audiences = []\<rparr>]\<rparr>] \<and>
   makeJwtAuthnFilter exampleWorld 1 (Some emptyRuleDoc) storeApi =
     Ok (Some \<lparr>HttpFilter_Name = JwtAuthn,
               HttpFilter_Config = JwtAuthnStruct
                 \<lparr>JwtAuthentication_Providers =
                    [(''google'', \<lparr>JwtProvider_Issuer = ''https://accounts.example.com'',
                                   LocalJwks_InlineString = ''jwks of google'',
                                   JwtProvider_Audiences = []\<rparr>)],
                  JwtAuthentication_Rules = []\<rparr>\<rparr>)"
  by (simp add: emptyRuleDoc_def storeDoc_def exampleWorld_def makeJwtAuthnFilter_def
        makeJwtProvider_def fetchJwk_def NewRequest_def)

text \<open>
  The rest of the claim holds: one requirement is emitted as it is, two or more as a
  \<open>RequiresAny\<close> over all of them, in order.
\<close>

lemma requirement_shapes:
  "(Requirements rule = [r] \<longrightarrow> makeRequires rule = Ok (makeRequire r)) \<and>
   (2 \<le> length (Requirements rule) \<longrightarrow>
      makeRequires rule = Ok (RequiresAny (map makeRequire (Requirements rule))))"
  by (simp add: makeRequires_one makeRequires_many)

section \<open>The listener\<close>

lemma appendIfSet_map_filter:
  "appendIfSet (appendIfSet (appendIfSet [] a) b) c = List.map_filter id [a, b, c]"
  by (cases a; cases b; cases c) (simp_all add: appendIfSet_def map_filter_simps)

lemma appendIfSet_None: "appendIfSet xs None = xs"
  by (simp add: appendIfSet_def)

lemma makeListener_Ok:
  assumes "makeListener w n sc api = Ok (l, h)"
  shows "\<exists>proto jwt scf.
           backendProtocolOf (GetFileName api) = Some proto \<and>
           makeJwtAuthnFilter w n (Some sc) api = Ok jwt \<and>
           makeServiceControlFilter sc = Ok scf \<and>
           HttpFilters h =
             List.map_filter id
               [jwt, scf, if proto = GRPC then makeTranscoderFilter sc api else None] @
             [routerFilter] \<and>
           VirtualHosts (RouteConfig h) =
             [\<lparr>VirtualHost_Name = virtualHostName, Domains = [''*''],
               Routes = [\<lparr>RouteMatch_Prefix = ''/'', RouteAction_Cluster = Api_Name api\<rparr>]\<rparr>] \<and>
           FilterChains l = []"
proof -
  obtain proto where p: "backendProtocolOf (GetFileName api) = Some proto"
    using assms by (cases "backendProtocolOf (GetFileName api)") (simp_all add: makeListener_def)
  obtain jwt where j: "makeJwtAuthnFilter w n (Some sc) api = Ok jwt"
    using assms p by (cases "makeJwtAuthnFilter w n (Some sc) api") (simp_all add: makeListener_def)
  obtain scf where s: "makeServiceControlFilter sc = Ok scf"
    using assms p j by (cases "makeServiceControlFilter sc") (simp_all add: makeListener_def Let_def)
  let ?tr = "if proto = GRPC then makeTranscoderFilter sc api else None"
  have fl: "(if proto = GRPC
             then appendIfSet (appendIfSet (appendIfSet [] jwt) scf) (makeTranscoderFilter sc api)
             else appendIfSet (appendIfSet [] jwt) scf) = List.map_filter id [jwt, scf, ?tr]"
  proof (cases "proto = GRPC")
    case True
    then show ?thesis by (simp only: if_True appendIfSet_map_filter refl)
  next
    case False
    have "appendIfSet (appendIfSet [] jwt) scf = List.map_filter id [jwt, scf, None]"
      using appendIfSet_map_filter[of jwt scf None] by (simp only: appendIfSet_None)
    with False show ?thesis by (simp only: if_False refl)
  qed
  have "HttpFilters h = List.map_filter id [jwt, scf, ?tr] @ [routerFilter] \<and>
        VirtualHosts (RouteConfig h) =
             [\<lparr>VirtualHost_Name = virtualHostName, Domains = [''*''],
               Routes = [\<lparr>RouteMatch_Prefix = ''/'', RouteAction_Cluster = Api_Name api\<rparr>]\<rparr>] \<and>
        FilterChains l = []"
    using assms unfolding makeListener_def Let_def p j s fl[symmetric]
    by (cases "proto = GRPC") auto
  with p j s show ?thesis by blast
qed

lemma backendProtocolOf_GRPC:
  "backendProtocolOf n = Some proto \<Longrightarrow> proto = GRPC \<longleftrightarrow> HasSuffix n ''.proto''"
  by (auto simp: backendProtocolOf_def split: if_splits)

lemma backendProtocolOf_None:
  "backendProtocolOf n = None \<longleftrightarrow> \<not> HasSuffix n ''.proto'' \<and> \<not> HasSuffix n ''.yaml''"
  by (auto simp: backendProtocolOf_def)

lemma makeJwtAuthnFilter_name:
  "makeJwtAuthnFilter w n (Some sc) api = Ok (Some f) \<Longrightarrow> HttpFilter_Name f = JwtAuthn"
  by (auto simp: makeJwtAuthnFilter_eq split: if_splits result.splits)

lemma makeServiceControlFilter_name:
  "makeServiceControlFilter sc = Ok (Some f) \<Longrightarrow> HttpFilter_Name f = ServiceControl"
  using makeServiceControlFilter_Some by blast

lemma transcoderLoop_name:
  "transcoderLoop fs api = Some f \<Longrightarrow> HttpFilter_Name f = GRPCJSONTranscoder"
  by (induction fs) (auto simp: Let_def split: if_splits)

lemma makeTranscoderFilter_name:
  "makeTranscoderFilter sc api = Some f \<Longrightarrow> HttpFilter_Name f = GRPCJSONTranscoder"
  by (simp add: makeTranscoderFilter_def transcoderLoop_name)

lemma map_filter_id_Cons:
  "List.map_filter id (a # xs) = List.map_filter id [a] @ List.map_filter id xs"
  by (cases a) (simp_all add: map_filter_simps)

lemma filter_name_single:
  fixes x :: "HttpFilter option"
  assumes "\<And>f. x = Some f \<Longrightarrow> HttpFilter_Name f = n"
  shows "map HttpFilter_Name (List.map_filter id [x]) = List.map_filter id [map_option (\<lambda>f. n) x]"
  using assms by (cases x) (simp_all add: map_filter_simps)

lemma names_of_filters:
  fixes jwt scf tr :: "HttpFilter option"
  assumes "\<And>f. jwt = Some f \<Longrightarrow> HttpFilter_Name f = JwtAuthn"
    and "\<And>f. scf = Some f \<Longrightarrow> HttpFilter_Name f = ServiceControl"
    and "\<And>f. tr = Some f \<Longrightarrow> HttpFilter_Name f = GRPCJSONTranscoder"
  shows "map HttpFilter_Name (List.map_filter id [jwt, scf, tr]) =
           List.map_filter id
             [map_option (\<lambda>f. JwtAuthn) jwt, map_option (\<lambda>f. ServiceControl) scf,
              map_option (\<lambda>f. GRPCJSONTranscoder) tr]"
proof -
  have "map HttpFilter_Name (List.map_filter id [jwt, scf, tr]) =
        map HttpFilter_Name (List.map_filter id [jwt]) @
        map HttpFilter_Name (List.map_filter id [scf]) @
        map HttpFilter_Name (List.map_filter id [tr])"
    by (simp only: map_filter_id_Cons[of jwt "[scf, tr]"] map_filter_id_Cons[of scf "[tr]"] map_append)
  also have "\<dots> = List.map_filter id [map_option (\<lambda>f. JwtAuthn) jwt] @
        List.map_filter id [map_option (\<lambda>f. ServiceControl) scf] @
        List.map_filter id [map_option (\<lambda>f. GRPCJSONTranscoder) tr]"
    by (simp only: filter_name_single[OF assms(1)] filter_name_single[OF assms(2)]
          filter_name_single[OF assms(3)])
  also have "\<dots> = List.map_filter id
             [map_option (\<lambda>f. JwtAuthn) jwt, map_option (\<lambda>f. ServiceControl) scf,
              map_option (\<lambda>f. GRPCJSONTranscoder) tr]"
    by (simp only: map_filter_id_Cons[of "map_option (\<lambda>f. JwtAuthn) jwt"
            "[map_option (\<lambda>f. ServiceControl) scf, map_option (\<lambda>f. GRPCJSONTranscoder) tr]"]
          map_filter_id_Cons[of "map_option (\<lambda>f. ServiceControl) scf"
            "[map_option (\<lambda>f. GRPCJSONTranscoder) tr]"])
  finally show ?thesis .
qed

lemma present_names_subseq:
  assumes "a \<in> {None, Some JwtAuthn}" and "b \<in> {None, Some ServiceControl}"
    and "c \<in> {None, Some GRPCJSONTranscoder}"
  shows "subseq (List.map_filter id [a, b, c] @ [Router])
          [JwtAuthn, ServiceControl, GRPCJSONTranscoder, Router]"
  using assms by (auto simp: map_filter_simps)

lemma map_option_const_cases: "map_option (\<lambda>f. n) x \<in> {None, Some n}"
  by (cases x) simp_all


text \<open>
  Claim C3. When the listener builder accepts the document, the HTTP filter list is the
  JWT-authn filter, the service-control filter and the transcoder filter, in this order,
  each present exactly when its builder emitted one (the transcoder builder being asked only
  for a gRPC backend, that is a source file name ending in \<open>.proto\<close>), followed by the
  router filter, which is always there and always last.
\<close>

theorem http_filter_order:
  assumes "makeListener w n sc api = Ok (l, hcm)"
  shows "\<exists>jwt scf tr.
           makeJwtAuthnFilter w n (Some sc) api = Ok jwt \<and>
           makeServiceControlFilter sc = Ok scf \<and>
           tr = (if HasSuffix (GetFileName api) ''.proto'' then makeTranscoderFilter sc api else None) \<and>
           HttpFilters hcm =
             List.map_filter id [jwt, scf, tr] @
             [\<lparr>HttpFilter_Name = Router, HttpFilter_Config = EmptyStruct\<rparr>] \<and>
           map HttpFilter_Name (HttpFilters hcm) =
             List.map_filter id
               [map_option (\<lambda>f. JwtAuthn) jwt, map_option (\<lambda>f. ServiceControl) scf,
                map_option (\<lambda>f. GRPCJSONTranscoder) tr] @ [Router] \<and>
           subseq (map HttpFilter_Name (HttpFilters hcm))
             [JwtAuthn, ServiceControl, GRPCJSONTranscoder, Router]"
proof -
  from makeListener_Ok[OF assms] obtain proto jwt scf where
    p: "backendProtocolOf (GetFileName api) = Some proto" and
    j: "makeJwtAuthnFilter w n (Some sc) api = Ok jwt" and
    s: "makeServiceControlFilter sc = Ok scf" and
    fs: "HttpFilters hcm =
             List.map_filter id
               [jwt, scf, if proto = GRPC then makeTranscoderFilter sc api else None] @
             [routerFilter]"
    by blast
  let ?tr = "if HasSuffix (GetFileName api) ''.proto'' then makeTranscoderFilter sc api else None"
  have tr: "(if proto = GRPC then makeTranscoderFilter sc api else None) = ?tr"
    using backendProtocolOf_GRPC[OF p] by simp
  have fs': "HttpFilters hcm = List.map_filter id [jwt, scf, ?tr] @
             [\<lparr>HttpFilter_Name = Router, HttpFilter_Config = EmptyStruct\<rparr>]"
    using fs unfolding tr routerFilter_def .
  have nj: "\<And>f. jwt = Some f \<Longrightarrow> HttpFilter_Name f = JwtAuthn"
    using j makeJwtAuthnFilter_name by simp
  have ns: "\<And>f. scf = Some f \<Longrightarrow> HttpFilter_Name f = ServiceControl"
    using s makeServiceControlFilter_name by simp
  have nt: "\<And>f. ?tr = Some f \<Longrightarrow> HttpFilter_Name f = GRPCJSONTranscoder"
    using makeTranscoderFilter_name by (auto split: if_splits)
  have names: "map HttpFilter_Name (HttpFilters hcm) =
             List.map_filter id
               [map_option (\<lambda>f. JwtAuthn) jwt, map_option (\<lambda>f. ServiceControl) scf,
                map_option (\<lambda>f. GRPCJSONTranscoder) ?tr] @ [Router]"
  proof -
    have r: "map HttpFilter_Name [\<lparr>HttpFilter_Name = Router, HttpFilter_Config = EmptyStruct\<rparr>] = [Router]"
      by simp
    show ?thesis by (simp only: fs' map_append names_of_filters[OF nj ns nt] r)
  qed
  have sub: "subseq (map HttpFilter_Name (HttpFilters hcm))
             [JwtAuthn, ServiceControl, GRPCJSONTranscoder, Router]"
    unfolding names
    by (rule present_names_subseq) (rule map_option_const_cases)+
  show ?thesis
    apply (rule exI[of _ jwt], rule exI[of _ scf], rule exI[of _ ?tr])
    using j s fs' names sub by (intro conjI) (assumption | rule refl)+
qed

lemma store_jwt:
  "makeJwtAuthnFilter exampleWorld n (Some storeDoc) storeApi =
     Ok (Some \<lparr>HttpFilter_Name = JwtAuthn,
               HttpFilter_Config = JwtAuthnStruct
                 \<lparr>JwtAuthentication_Providers =
                    [(''google'', \<lparr>JwtProvider_Issuer = ''https://accounts.example.com'',
                                   LocalJwks_InlineString = ''jwks of google'',
                                   JwtProvider_Audiences = []\<rparr>)],
                  JwtAuthentication_Rules =
                    [\<lparr>Match_Prefix = ''/pets.Store/Get'',
                      RequirementRule_Requires = ProviderName ''google''\<rparr>]\<rparr>\<rparr>)"
  by (simp add: storeDoc_def storeApi_def exampleWorld_def makeJwtAuthnFilter_def fetchJwk_def NewRequest_def
        makeJwtProvider_def makeRequires_def addRequire_def makeRequire_def)

lemma store_sc: "\<exists>f. makeServiceControlFilter storeDoc = Ok (Some f)"
  by (simp add: storeDoc_def storeApi_def eval_sc)

lemma store_tr:
  "makeTranscoderFilter storeDoc storeApi =
     Some \<lparr>HttpFilter_Name = GRPCJSONTranscoder,
           HttpFilter_Config = TranscoderStruct
             \<lparr>ProtoDescriptorBin = ''descriptor'',
              GrpcJsonTranscoder_Services = [''pets.Store'']\<rparr>\<rparr>"
  by (simp add: makeTranscoderFilter_def storeDoc_def storeApi_def UnmarshalAny_def)

lemma store_proto: "backendProtocolOf (GetFileName storeApi) = Some GRPC"
  by (simp add: backendProtocolOf_def GetFileName_def storeApi_def HasSuffix_def)

lemma store_listener: "\<exists>l h. makeListener exampleWorld 1 storeDoc storeApi = Ok (l, h)"
proof -
  from store_sc obtain f where "makeServiceControlFilter storeDoc = Ok (Some f)" ..
  then show ?thesis
    by (simp add: makeListener_def store_proto store_jwt Let_def)
qed

text \<open>The store document has a gRPC backend and all three optional filters.\<close>

theorem http_filter_order_witness:
  "\<exists>l hcm. makeListener exampleWorld 1 storeDoc storeApi = Ok (l, hcm) \<and>
      map HttpFilter_Name (HttpFilters hcm) = [JwtAuthn, ServiceControl, GRPCJSONTranscoder, Router] \<and>
      subseq (map HttpFilter_Name (HttpFilters hcm))
        [JwtAuthn, ServiceControl, GRPCJSONTranscoder, Router]"
proof -
  from store_listener obtain l hcm where
    lh: "makeListener exampleWorld 1 storeDoc storeApi = Ok (l, hcm)" by blast
  from store_sc obtain g where g: "makeServiceControlFilter storeDoc = Ok (Some g)" ..
  have sfx: "HasSuffix (GetFileName storeApi) ''.proto''"
    by (simp add: GetFileName_def storeApi_def HasSuffix_def)
  from http_filter_order[OF lh] obtain jwt scf tr where
    j: "makeJwtAuthnFilter exampleWorld 1 (Some storeDoc) storeApi = Ok jwt" and
    s: "makeServiceControlFilter storeDoc = Ok scf" and
    t: "tr = (if HasSuffix (GetFileName storeApi) ''.proto''
              then makeTranscoderFilter storeDoc storeApi else None)" and
    names: "map HttpFilter_Name (HttpFilters hcm) =
             List.map_filter id
               [map_option (\<lambda>f. JwtAuthn) jwt, map_option (\<lambda>f. ServiceControl) scf,
                map_option (\<lambda>f. GRPCJSONTranscoder) tr] @ [Router]" and
    sub: "subseq (map HttpFilter_Name (HttpFilters hcm))
             [JwtAuthn, ServiceControl, GRPCJSONTranscoder, Router]"
    by blast
  have "jwt \<noteq> None" using j store_jwt by auto
  moreover have "scf \<noteq> None" using s g by auto
  moreover have "tr \<noteq> None" using t sfx store_tr by simp
  ultimately have nm: "map HttpFilter_Name (HttpFilters hcm) =
      [JwtAuthn, ServiceControl, GRPCJSONTranscoder, Router]"
    unfolding names by (auto simp: map_filter_simps)
  show ?thesis
    by (rule exI[of _ l], rule exI[of _ hcm]) (intro conjI lh nm sub)
qed

lemma makeSnapshot_Ok:
  assumes "makeSnapshot w n m sc = Ok snap"
  shows "\<exists>api others l h.
           Apis sc = api # others \<and>
           makeListener w n sc api = Ok (l, h) \<and>
           structError w h = None \<and>
           snap = NewSnapshot (configID m) []
             [ClusterResource
                \<lparr>Cluster_Name = Api_Name api, Cluster_LbPolicy = ROUND_ROBIN,
                 ConnectTimeout = clusterConnectTimeout (flags w),
                 Hosts = [\<lparr>Address = clusterAddress (flags w),
                           PortValue = ucast (clusterPort (flags w))\<rparr>]\<rparr>]
             []
             [ListenerResource (l\<lparr>FilterChains :=
                [\<lparr>Filters = [\<lparr>ListenerFilter_Name = HTTPConnectionManager,
                              ListenerFilter_Config = h\<rparr>]\<rparr>]\<rparr>)]"
proof -
  obtain api others where a: "Apis sc = api # others"
    using assms by (cases "Apis sc") (simp_all add: makeSnapshot_def)
  obtain l h where lh: "makeListener w n sc api = Ok (l, h)"
    using assms a by (cases "makeListener w n sc api") (auto simp: makeSnapshot_def)
  have se: "structError w h = None"
    using assms a lh by (cases "structError w h") (simp_all add: makeSnapshot_def)
  show ?thesis
    using assms a lh se by (simp add: makeSnapshot_def Let_def)
qed

section \<open>The snapshot\<close>

lemma store_snapshot: "\<exists>snap. makeSnapshot exampleWorld 1 storeManager storeDoc = Ok snap"
proof -
  from store_listener obtain l h where
    "makeListener exampleWorld 1 storeDoc storeApi = Ok (l, h)" by blast
  moreover have "structError exampleWorld h = None" by (simp add: exampleWorld_def)
  moreover have "Apis storeDoc = [storeApi]" by (simp add: storeDoc_def)
  ultimately show ?thesis by (simp add: makeSnapshot_def Let_def)
qed

text \<open>
  Claim C2. A snapshot built by \<^verbatim>\<open>makeSnapshot\<close> comes from a document with at least one
  API; its version is the manager's config id, its endpoint and route sets are empty, it
  has exactly one cluster, named after the first API, and exactly one listener, whose one
  filter chain holds the connection manager with one virtual host and one route, and that
  route names the cluster. So the cluster the route refers to is in the cluster set.
\<close>

theorem snapshot_shape:
  assumes "makeSnapshot w n m sc = Ok snap"
  shows "Apis sc \<noteq> [] \<and> Version snap = configID m \<and> Endpoints snap = [] \<and>
         Snapshot_Routes snap = [] \<and>
         (\<exists>c l hcm vh r.
            Clusters snap = [ClusterResource c] \<and>
            Cluster_Name c = Api_Name (hd (Apis sc)) \<and>
            Listeners snap = [ListenerResource l] \<and>
            FilterChains l = [\<lparr>Filters = [\<lparr>ListenerFilter_Name = HTTPConnectionManager,
                                          ListenerFilter_Config = hcm\<rparr>]\<rparr>] \<and>
            VirtualHosts (RouteConfig hcm) = [vh] \<and>
            Routes vh = [r] \<and>
            RouteAction_Cluster r = Cluster_Name c \<and>
            ClusterResource c \<in> set (Clusters snap))"
proof -
  from makeSnapshot_Ok[OF assms] obtain api others l h where
    a: "Apis sc = api # others" and
    lh: "makeListener w n sc api = Ok (l, h)" and
    snap: "snap = NewSnapshot (configID m) []
             [ClusterResource
                \<lparr>Cluster_Name = Api_Name api, Cluster_LbPolicy = ROUND_ROBIN,
                 ConnectTimeout = clusterConnectTimeout (flags w),
                 Hosts = [\<lparr>Address = clusterAddress (flags w),
                           PortValue = ucast (clusterPort (flags w))\<rparr>]\<rparr>]
             []
             [ListenerResource (l\<lparr>FilterChains :=
                [\<lparr>Filters = [\<lparr>ListenerFilter_Name = HTTPConnectionManager,
                              ListenerFilter_Config = h\<rparr>]\<rparr>]\<rparr>)]"
    by blast
  from makeListener_Ok[OF lh] have
    vh: "VirtualHosts (RouteConfig h) =
             [\<lparr>VirtualHost_Name = virtualHostName, Domains = [''*''],
               Routes = [\<lparr>RouteMatch_Prefix = ''/'', RouteAction_Cluster = Api_Name api\<rparr>]\<rparr>]"
    by blast
  let ?c = "\<lparr>Cluster_Name = Api_Name api, Cluster_LbPolicy = ROUND_ROBIN,
                 ConnectTimeout = clusterConnectTimeout (flags w),
                 Hosts = [\<lparr>Address = clusterAddress (flags w),
                           PortValue = ucast (clusterPort (flags w))\<rparr>]\<rparr>"
  let ?l = "l\<lparr>FilterChains :=
                [\<lparr>Filters = [\<lparr>ListenerFilter_Name = HTTPConnectionManager,
                              ListenerFilter_Config = h\<rparr>]\<rparr>]\<rparr>"
  let ?vh = "\<lparr>VirtualHost_Name = virtualHostName, Domains = [''*''],
               Routes = [\<lparr>RouteMatch_Prefix = ''/'', RouteAction_Cluster = Api_Name api\<rparr>]\<rparr>"
  let ?r = "\<lparr>RouteMatch_Prefix = ''/'', RouteAction_Cluster = Api_Name api\<rparr>"
  have shape: "Clusters snap = [ClusterResource ?c] \<and>
            Cluster_Name ?c = Api_Name (hd (Apis sc)) \<and>
            Listeners snap = [ListenerResource ?l] \<and>
            FilterChains ?l = [\<lparr>Filters = [\<lparr>ListenerFilter_Name = HTTPConnectionManager,
                                          ListenerFilter_Config = h\<rparr>]\<rparr>] \<and>
            VirtualHosts (RouteConfig h) = [?vh] \<and>
            Routes ?vh = [?r] \<and>
            RouteAction_Cluster ?r = Cluster_Name ?c \<and>
            ClusterResource ?c \<in> set (Clusters snap)"
    using a vh by (simp add: snap NewSnapshot_def)
  have top: "Apis sc \<noteq> [] \<and> Version snap = configID m \<and> Endpoints snap = [] \<and>
         Snapshot_Routes snap = []"
    using a by (simp add: snap NewSnapshot_def)
  from shape have "\<exists>c l hcm vh r.
            Clusters snap = [ClusterResource c] \<and>
            Cluster_Name c = Api_Name (hd (Apis sc)) \<and>
            Listeners snap = [ListenerResource l] \<and>
            FilterChains l = [\<lparr>Filters = [\<lparr>ListenerFilter_Name = HTTPConnectionManager,
                                          ListenerFilter_Config = hcm\<rparr>]\<rparr>] \<and>
            VirtualHosts (RouteConfig hcm) = [vh] \<and>
            Routes vh = [r] \<and>
            RouteAction_Cluster r = Cluster_Name c \<and>
            ClusterResource c \<in> set (Clusters snap)"
    by (intro exI[of _ ?c] exI[of _ ?l] exI[of _ h] exI[of _ ?vh] exI[of _ ?r])
  with top show ?thesis by (intro conjI) simp_all
qed

text \<open>The snapshot of the store document.\<close>

theorem snapshot_shape_witness:
  "\<exists>snap. makeSnapshot exampleWorld 1 storeManager storeDoc = Ok snap \<and>
      Version snap = ''r0'' \<and> Endpoints snap = [] \<and> Snapshot_Routes snap = [] \<and>
      (\<exists>c l hcm vh r.
            Clusters snap = [ClusterResource c] \<and>
            Cluster_Name c = ''pets.Store'' \<and>
            Listeners snap = [ListenerResource l] \<and>
            FilterChains l = [\<lparr>Filters = [\<lparr>ListenerFilter_Name = HTTPConnectionManager,
                                          ListenerFilter_Config = hcm\<rparr>]\<rparr>] \<and>
            VirtualHosts (RouteConfig hcm) = [vh] \<and>
            Routes vh = [r] \<and>
            RouteAction_Cluster r = ''pets.Store'')"
proof -
  from store_snapshot obtain snap where
    s: "makeSnapshot exampleWorld 1 storeManager storeDoc = Ok snap" ..
  have n: "Api_Name (hd (Apis storeDoc)) = ''pets.Store''"
    by (simp add: storeDoc_def storeApi_def)
  have v: "configID storeManager = ''r0''" by (simp add: storeManager_def)
  from snapshot_shape[OF s] obtain c l hcm vh r where
    t: "Version snap = configID storeManager" "Endpoints snap = []" "Snapshot_Routes snap = []" and
    u: "Clusters snap = [ClusterResource c]" "Cluster_Name c = Api_Name (hd (Apis storeDoc))"
       "Listeners snap = [ListenerResource l]"
       "FilterChains l = [\<lparr>Filters = [\<lparr>ListenerFilter_Name = HTTPConnectionManager,
                                          ListenerFilter_Config = hcm\<rparr>]\<rparr>]"
       "VirtualHosts (RouteConfig hcm) = [vh]" "Routes vh = [r]"
       "RouteAction_Cluster r = Cluster_Name c"
    by blast
  have inner: "\<exists>c l hcm vh r.
            Clusters snap = [ClusterResource c] \<and>
            Cluster_Name c = ''pets.Store'' \<and>
            Listeners snap = [ListenerResource l] \<and>
            FilterChains l = [\<lparr>Filters = [\<lparr>ListenerFilter_Name = HTTPConnectionManager,
                                          ListenerFilter_Config = hcm\<rparr>]\<rparr>] \<and>
            VirtualHosts (RouteConfig hcm) = [vh] \<and>
            Routes vh = [r] \<and>
            RouteAction_Cluster r = ''pets.Store''"
    using u n by (intro exI[of _ c] exI[of _ l] exI[of _ hcm] exI[of _ vh] exI[of _ r]) simp
  show ?thesis
    using s t v inner by (intro exI[of _ snap] conjI) simp_all
qed

lemma set_map_filter_id: "set (List.map_filter id xs) = {x. Some x \<in> set xs}"
  by (induction xs) (auto simp: map_filter_simps split: option.splits)

lemma makeServiceControlFilter_config:
  "makeServiceControlFilter sc = Ok (Some f) \<Longrightarrow> \<exists>cfg. HttpFilter_Config f = ServiceControlStruct cfg"
  using makeServiceControlFilter_Some by blast

lemma transcoderLoop_config:
  "transcoderLoop fs api = Some f \<Longrightarrow> \<exists>cfg. HttpFilter_Config f = TranscoderStruct cfg"
  by (induction fs) (auto simp: Let_def split: if_splits)

lemma Match_Prefix_jwtRuleOf:
  "Match_Prefix (jwtRuleOf api rule) =
     ''/'' @ Api_Name api @ ''/'' @
     rev (takeWhile (\<lambda>c. c \<noteq> CHR ''.'') (rev (AuthenticationRule_Selector rule)))"
  by (simp add: jwtRuleOf_def last_Split)

text \<open>
  Claim C10. In a built snapshot, every requirement rule of the JWT-authn filter matches
  the path prefix made of the name of the first API of the document and the part of the
  rule's selector after its last dot: whatever stands before that dot is dropped, the first
  API's name is used in its place. The emitted rules are those of the authentication rules
  before the first one without requirements, in order.
\<close>

theorem jwt_rule_prefix_uses_first_api:
  assumes "makeSnapshot w n m sc = Ok snap"
  shows "\<exists>api others l hcm.
           Apis sc = api # others \<and>
           Listeners snap = [ListenerResource l] \<and>
           FilterChains l = [\<lparr>Filters = [\<lparr>ListenerFilter_Name = HTTPConnectionManager,
                                         ListenerFilter_Config = hcm\<rparr>]\<rparr>] \<and>
           (\<forall>f\<in>set (HttpFilters hcm). \<forall>cfg. HttpFilter_Config f = JwtAuthnStruct cfg \<longrightarrow>
              map Match_Prefix (JwtAuthentication_Rules cfg) =
                map (\<lambda>rule. ''/'' @ Api_Name api @ ''/'' @
                       rev (takeWhile (\<lambda>c. c \<noteq> CHR ''.'')
                              (rev (AuthenticationRule_Selector rule))))
                  (takeWhile (\<lambda>rule. Requirements rule \<noteq> [])
                     (Authentication_Rules (Service_Authentication sc))))"
proof -
  from makeSnapshot_Ok[OF assms] obtain api others l h where
    a: "Apis sc = api # others" and
    lh: "makeListener w n sc api = Ok (l, h)" and
    snap: "snap = NewSnapshot (configID m) []
             [ClusterResource
                \<lparr>Cluster_Name = Api_Name api, Cluster_LbPolicy = ROUND_ROBIN,
                 ConnectTimeout = clusterConnectTimeout (flags w),
                 Hosts = [\<lparr>Address = clusterAddress (flags w),
                           PortValue = ucast (clusterPort (flags w))\<rparr>]\<rparr>]
             []
             [ListenerResource (l\<lparr>FilterChains :=
                [\<lparr>Filters = [\<lparr>ListenerFilter_Name = HTTPConnectionManager,
                              ListenerFilter_Config = h\<rparr>]\<rparr>]\<rparr>)]"
    by blast
  let ?l = "l\<lparr>FilterChains :=
                [\<lparr>Filters = [\<lparr>ListenerFilter_Name = HTTPConnectionManager,
                              ListenerFilter_Config = h\<rparr>]\<rparr>]\<rparr>"
  from makeListener_Ok[OF lh] obtain proto jwt scf where
    j: "makeJwtAuthnFilter w n (Some sc) api = Ok jwt" and
    s: "makeServiceControlFilter sc = Ok scf" and
    fs: "HttpFilters h =
             List.map_filter id
               [jwt, scf, if proto = GRPC then makeTranscoderFilter sc api else None] @
             [routerFilter]"
    by blast
  have prefixes: "map Match_Prefix (JwtAuthentication_Rules cfg) =
                map (\<lambda>rule. ''/'' @ Api_Name api @ ''/'' @
                       rev (takeWhile (\<lambda>c. c \<noteq> CHR ''.'')
                              (rev (AuthenticationRule_Selector rule))))
                  (takeWhile (\<lambda>rule. Requirements rule \<noteq> [])
                     (Authentication_Rules (Service_Authentication sc)))"
    if f: "f \<in> set (HttpFilters h)" and c: "HttpFilter_Config f = JwtAuthnStruct cfg" for f cfg
  proof -
    from f have "Some f = jwt \<or> Some f = scf \<or>
        Some f = (if proto = GRPC then makeTranscoderFilter sc api else None) \<or> f = routerFilter"
      unfolding fs set_append set_map_filter_id by auto
    moreover have "Some f \<noteq> scf"
      using s c makeServiceControlFilter_config[of sc f] by auto
    moreover have "Some f \<noteq> (if proto = GRPC then makeTranscoderFilter sc api else None)"
      using c transcoderLoop_config[of "SourceFiles sc" api f]
      by (auto simp: makeTranscoderFilter_def split: if_splits)
    moreover have "f \<noteq> routerFilter" using c by (auto simp: routerFilter_def)
    ultimately have "makeJwtAuthnFilter w n (Some sc) api = Ok (Some f)" using j by simp
    then have "JwtAuthentication_Rules cfg =
        map (jwtRuleOf api) (takeWhile (\<lambda>r. Requirements r \<noteq> [])
           (Authentication_Rules (Service_Authentication sc)))"
      using c by (auto simp: makeJwtAuthnFilter_eq split: if_splits result.splits)
    then show ?thesis by (simp add: Match_Prefix_jwtRuleOf comp_def)
  qed
  have "Listeners snap = [ListenerResource ?l]" by (simp add: snap NewSnapshot_def)
  moreover have "FilterChains ?l = [\<lparr>Filters = [\<lparr>ListenerFilter_Name = HTTPConnectionManager,
                                         ListenerFilter_Config = h\<rparr>]\<rparr>]" by simp
  ultimately show ?thesis
    using a prefixes
    by (intro exI[of _ api] exI[of _ others] exI[of _ ?l] exI[of _ h]) blast
qed


lemma foreign_jwt:
  "makeJwtAuthnFilter exampleWorld n (Some foreignSelectorDoc) storeApi =
     Ok (Some \<lparr>HttpFilter_Name = JwtAuthn,
               HttpFilter_Config = JwtAuthnStruct
                 \<lparr>JwtAuthentication_Providers =
                    [(''google'', \<lparr>JwtProvider_Issuer = ''https://accounts.example.com'',
                                   LocalJwks_InlineString = ''jwks of google'',
                                   JwtProvider_Audiences = []\<rparr>)],
                  JwtAuthentication_Rules =
                    [\<lparr>Match_Prefix = ''/pets.Store/Reset'',
                      RequirementRule_Requires = ProviderName ''google''\<rparr>]\<rparr>\<rparr>)"
  by (simp add: foreignSelectorDoc_def storeDoc_def storeApi_def exampleWorld_def
        makeJwtAuthnFilter_def fetchJwk_def NewRequest_def makeJwtProvider_def makeRequires_def addRequire_def makeRequire_def)

lemma foreign_snapshot: "\<exists>snap. makeSnapshot exampleWorld 1 storeManager foreignSelectorDoc = Ok snap"
proof -
  have "\<exists>f. makeServiceControlFilter foreignSelectorDoc = Ok (Some f)"
    by (simp add: foreignSelectorDoc_def storeDoc_def storeApi_def eval_sc)
  then obtain f where "makeServiceControlFilter foreignSelectorDoc = Ok (Some f)" ..
  then have "\<exists>l h. makeListener exampleWorld 1 foreignSelectorDoc storeApi = Ok (l, h)"
    by (simp add: makeListener_def store_proto foreign_jwt Let_def)
  then obtain l h where "makeListener exampleWorld 1 foreignSelectorDoc storeApi = Ok (l, h)"
    by blast
  moreover have "structError exampleWorld h = None" by (simp add: exampleWorld_def)
  moreover have "Apis foreignSelectorDoc = [storeApi]"
    by (simp add: foreignSelectorDoc_def storeDoc_def)
  ultimately show ?thesis by (simp add: makeSnapshot_def Let_def)
qed

text \<open>
  A rule for \<open>admin.Panel.v1.Reset\<close> in a document whose first API is \<open>pets.Store\<close>.
\<close>

theorem jwt_rule_prefix_uses_first_api_witness:
  "Api_Name (hd (Apis foreignSelectorDoc)) = ''pets.Store'' \<and>
   map AuthenticationRule_Selector (Authentication_Rules (Service_Authentication foreignSelectorDoc)) =
     [''admin.Panel.v1.Reset''] \<and>
   (\<exists>snap l hcm f cfg.
      makeSnapshot exampleWorld 1 storeManager foreignSelectorDoc = Ok snap \<and>
      Listeners snap = [ListenerResource l] \<and>
      FilterChains l = [\<lparr>Filters = [\<lparr>ListenerFilter_Name = HTTPConnectionManager,
                                    ListenerFilter_Config = hcm\<rparr>]\<rparr>] \<and>
      f \<in> set (HttpFilters hcm) \<and>
      HttpFilter_Config f = JwtAuthnStruct cfg \<and>
      map Match_Prefix (JwtAuthentication_Rules cfg) = [''/pets.Store/Reset''])"
proof -
  from foreign_snapshot obtain snap where
    s: "makeSnapshot exampleWorld 1 storeManager foreignSelectorDoc = Ok snap" ..
  have apis: "Apis foreignSelectorDoc = [storeApi]"
    by (simp add: foreignSelectorDoc_def storeDoc_def)
  from makeSnapshot_Ok[OF s] apis obtain l0 h where
    lh: "makeListener exampleWorld 1 foreignSelectorDoc storeApi = Ok (l0, h)" and
    ls: "Listeners snap = [ListenerResource (l0\<lparr>FilterChains :=
                [\<lparr>Filters = [\<lparr>ListenerFilter_Name = HTTPConnectionManager,
                              ListenerFilter_Config = h\<rparr>]\<rparr>]\<rparr>)]"
    by (auto simp: NewSnapshot_def)
  from makeListener_Ok[OF lh] obtain proto jwt scf where
    j: "makeJwtAuthnFilter exampleWorld 1 (Some foreignSelectorDoc) storeApi = Ok jwt" and
    fs: "HttpFilters h =
           List.map_filter id
             [jwt, scf, if proto = GRPC then makeTranscoderFilter foreignSelectorDoc storeApi else None] @
           [routerFilter]"
    by blast
  obtain f cfg where f: "jwt = Some f" and c: "HttpFilter_Config f = JwtAuthnStruct cfg"
    using j foreign_jwt by auto
  have mem: "f \<in> set (HttpFilters h)"
    unfolding fs set_append set_map_filter_id using f by simp
  from jwt_rule_prefix_uses_first_api[OF s] obtain api others l hcm where
    a: "Apis foreignSelectorDoc = api # others" and
    l: "Listeners snap = [ListenerResource l]" and
    fc: "FilterChains l = [\<lparr>Filters = [\<lparr>ListenerFilter_Name = HTTPConnectionManager,
                                    ListenerFilter_Config = hcm\<rparr>]\<rparr>]" and
    every: "\<forall>f\<in>set (HttpFilters hcm). \<forall>cfg. HttpFilter_Config f = JwtAuthnStruct cfg \<longrightarrow>
              map Match_Prefix (JwtAuthentication_Rules cfg) =
                map (\<lambda>rule. ''/'' @ Api_Name api @ ''/'' @
                       rev (takeWhile (\<lambda>c. c \<noteq> CHR ''.'')
                              (rev (AuthenticationRule_Selector rule))))
                  (takeWhile (\<lambda>rule. Requirements rule \<noteq> [])
                     (Authentication_Rules (Service_Authentication foreignSelectorDoc)))"
    by blast
  have "l = l0\<lparr>FilterChains :=
                [\<lparr>Filters = [\<lparr>ListenerFilter_Name = HTTPConnectionManager,
                              ListenerFilter_Config = h\<rparr>]\<rparr>]\<rparr>"
    using l ls by simp
  then have "FilterChains l = [\<lparr>Filters = [\<lparr>ListenerFilter_Name = HTTPConnectionManager,
                              ListenerFilter_Config = h\<rparr>]\<rparr>]" by simp
  with fc have "hcm = h" by simp
  with mem have mem': "f \<in> set (HttpFilters hcm)" by simp
  have api: "api = storeApi" using a apis by simp
  from every[rule_format, OF mem' c]
  have p: "map Match_Prefix (JwtAuthentication_Rules cfg) = [''/pets.Store/Reset'']"
    by (simp add: api foreignSelectorDoc_def storeDoc_def storeApi_def)
  have n: "Api_Name (hd (Apis foreignSelectorDoc)) = ''pets.Store''"
    by (simp add: apis storeApi_def)
  have r: "map AuthenticationRule_Selector
             (Authentication_Rules (Service_Authentication foreignSelectorDoc)) =
           [''admin.Panel.v1.Reset'']"
    by (simp add: foreignSelectorDoc_def storeDoc_def)
  have "\<exists>snap l hcm f cfg.
      makeSnapshot exampleWorld 1 storeManager foreignSelectorDoc = Ok snap \<and>
      Listeners snap = [ListenerResource l] \<and>
      FilterChains l = [\<lparr>Filters = [\<lparr>ListenerFilter_Name = HTTPConnectionManager,
                                    ListenerFilter_Config = hcm\<rparr>]\<rparr>] \<and>
      f \<in> set (HttpFilters hcm) \<and>
      HttpFilter_Config f = JwtAuthnStruct cfg \<and>
      map Match_Prefix (JwtAuthentication_Rules cfg) = [''/pets.Store/Reset'']"
    by (intro exI[of _ snap] exI[of _ l] exI[of _ hcm] exI[of _ f] exI[of _ cfg] conjI
          s l fc mem' c p)
  with n r show ?thesis by (intro conjI)
qed

section \<open>Start-up\<close>

lemma store_fetch: "fetchConfig exampleWorld storeManager ''r0'' = Ok storeDoc"
  by (simp add: fetchConfig_def callServiceManagement_def NewRequest_def exampleWorld_def
        storeManager_def fetchConfigURL_def exampleFlags_def fetchConfigSufix_def Let_def)

lemma untyped_fetch: "fetchConfig exampleWorld untypedManager ''r0'' = Ok untypedDoc"
  by (simp add: fetchConfig_def callServiceManagement_def NewRequest_def exampleWorld_def
        untypedManager_def fetchConfigURL_def exampleFlags_def fetchConfigSufix_def Let_def)

lemma makeSnapshot_fatal:
  assumes "Apis sc = [] \<or>
           (\<not> HasSuffix (GetFileName (hd (Apis sc))) ''.proto'' \<and>
            \<not> HasSuffix (GetFileName (hd (Apis sc))) ''.yaml'')"
  shows "\<exists>e. makeSnapshot w 1 m sc = Error e"
proof (cases "Apis sc")
  case Nil
  then show ?thesis by (simp add: makeSnapshot_def)
next
  case (Cons api others)
  with assms have "backendProtocolOf (GetFileName api) = None"
    by (simp add: backendProtocolOf_None)
  then have "makeListener w 1 sc api = Error ''unknown backend protocol''"
    by (simp add: makeListener_def)
  with Cons show ?thesis by (simp add: makeSnapshot_def)
qed

text \<open>
  Claim C8. When the configuration fetch fails, or the fetched document has no API, or the
  source file name of its first API ends in neither \<open>.proto\<close> nor \<open>.yaml\<close>, \<^verbatim>\<open>init\<close>
  returns an error and leaves the manager, and so its cache, as it was. In general \<^verbatim>\<open>init\<close>
  either writes exactly one snapshot, the one built from the fetched document, under the
  node id and returns nil, or does not return nil and writes nothing; the first happens
  only when both the fetch and the build succeeded.
\<close>

theorem init_publishes_only_on_success:
  "(((\<exists>e. fetchConfig w m (configID m) = Error e) \<or>
     (\<exists>sc. fetchConfig w m (configID m) = Ok sc \<and>
        (Apis sc = [] \<or>
         (\<not> HasSuffix (GetFileName (hd (Apis sc))) ''.proto'' \<and>
          \<not> HasSuffix (GetFileName (hd (Apis sc))) ''.yaml'')))) \<longrightarrow>
    (\<exists>msg. init w m = (Error msg, m))) \<and>
   ((\<exists>sc snap. fetchConfig w m (configID m) = Ok sc \<and> makeSnapshot w 1 m sc = Ok snap \<and>
        init w m = (Ok (), m\<lparr>cache := cache m @ [(node (flags w), snap)]\<rparr>)) \<or>
    (fst (init w m) \<noteq> Ok () \<and> snd (init w m) = m \<and>
     \<not> (\<exists>sc snap. fetchConfig w m (configID m) = Ok sc \<and> makeSnapshot w 1 m sc = Ok snap))) \<and>
   (\<forall>m'. init w m = (Ok (), m') \<longrightarrow> length (cache m') = length (cache m) + 1)"
proof (cases "fetchConfig w m (configID m)")
  case (Error e)
  then show ?thesis by (simp add: init_def)
next
  case Panic
  then show ?thesis by (simp add: init_def)
next
  case fetched: (Ok sc)
  show ?thesis
  proof (cases "makeSnapshot w 1 m sc")
    case (Ok snap)
    then have "init w m = (Ok (), m\<lparr>cache := cache m @ [(node (flags w), snap)]\<rparr>)"
      using fetched by (simp add: init_def SetSnapshot_def)
    moreover have "\<not> (Apis sc = [] \<or>
         (\<not> HasSuffix (GetFileName (hd (Apis sc))) ''.proto'' \<and>
          \<not> HasSuffix (GetFileName (hd (Apis sc))) ''.yaml''))"
      using makeSnapshot_fatal[of sc w m] Ok by auto
    ultimately show ?thesis using fetched Ok by auto
  next
    case (Error e)
    then show ?thesis using fetched by (simp add: init_def)
  next
    case Panic
    then have "\<not> (Apis sc = [] \<or>
         (\<not> HasSuffix (GetFileName (hd (Apis sc))) ''.proto'' \<and>
          \<not> HasSuffix (GetFileName (hd (Apis sc))) ''.yaml''))"
      using makeSnapshot_fatal[of sc w m] by auto
    then show ?thesis using fetched Panic by (simp add: init_def)
  qed
qed

text \<open>
  A service whose first API comes from \<open>store.json\<close> is refused and nothing is
  published; the store service is published once.
\<close>

theorem init_publishes_only_on_success_witness:
  "fetchConfig exampleWorld untypedManager (configID untypedManager) = Ok untypedDoc \<and>
   GetFileName (hd (Apis untypedDoc)) = ''store.json'' \<and>
   (\<exists>msg. init exampleWorld untypedManager = (Error msg, untypedManager)) \<and>
   (\<exists>snap. init exampleWorld storeManager =
              (Ok (), storeManager\<lparr>cache := [(''api_proxy'', snap)]\<rparr>))"
proof -
  have f: "fetchConfig exampleWorld untypedManager (configID untypedManager) = Ok untypedDoc"
    using untyped_fetch by (simp add: untypedManager_def)
  have n: "GetFileName (hd (Apis untypedDoc)) = ''store.json''"
    by (simp add: untypedDoc_def GetFileName_def)
  have u: "\<not> HasSuffix (GetFileName (hd (Apis untypedDoc))) ''.proto'' \<and>
           \<not> HasSuffix (GetFileName (hd (Apis untypedDoc))) ''.yaml''"
    unfolding n by (simp add: HasSuffix_def)
  have fatal: "(\<exists>e. fetchConfig exampleWorld untypedManager (configID untypedManager) = Error e) \<or>
     (\<exists>sc. fetchConfig exampleWorld untypedManager (configID untypedManager) = Ok sc \<and>
        (Apis sc = [] \<or>
         (\<not> HasSuffix (GetFileName (hd (Apis sc))) ''.proto'' \<and>
          \<not> HasSuffix (GetFileName (hd (Apis sc))) ''.yaml'')))"
    using f u by simp
  from init_publishes_only_on_success[of exampleWorld untypedManager] fatal
  have e: "\<exists>msg. init exampleWorld untypedManager = (Error msg, untypedManager)" by blast
  have g: "fetchConfig exampleWorld storeManager (configID storeManager) = Ok storeDoc"
    using store_fetch by (simp add: storeManager_def)
  from store_snapshot obtain snap0 where
    s: "makeSnapshot exampleWorld 1 storeManager storeDoc = Ok snap0" ..
  from init_publishes_only_on_success[of exampleWorld storeManager] g s
  obtain snap where "init exampleWorld storeManager =
      (Ok (), storeManager\<lparr>cache := cache storeManager @ [(node (flags exampleWorld), snap)]\<rparr>)"
    by blast
  then have "init exampleWorld storeManager =
      (Ok (), storeManager\<lparr>cache := [(''api_proxy'', snap)]\<rparr>)"
    by (simp add: storeManager_def exampleWorld_def exampleFlags_def)
  then have p: "\<exists>snap. init exampleWorld storeManager =
      (Ok (), storeManager\<lparr>cache := [(''api_proxy'', snap)]\<rparr>)" ..
  from f n e p show ?thesis by (intro conjI)
qed

text \<open>
  A management URL that does not parse (from the flag, the service name or the config id)
  gives a nil request, which \<^verbatim>\<open>callServiceManagement\<close> dereferences: start-up panics, and
  nothing is published.
\<close>

lemma init_panics_on_unparsable_url:
  assumes "fetchAccessToken w = Inr token"
    and "\<not> urlParses w (fetchConfigURL w (serviceName m) (configID m))"
  shows "init w m = (Panic, m)"
  using assms by (simp add: init_def fetchConfig_def callServiceManagement_def NewRequest_def)

end
